theory Spec2Isabelle
  imports Complex_Main
begin

section \<open>Values exchanged with the remote service\<close>

text \<open>
  The program reads parsed JSON bodies with JavaScript's own operators: property
  access, optional chaining, truthiness, strict equality and \<^verbatim>\<open>||\<close>.
  A body is any JavaScript value a JSON parser (or an empty or textual body) can
  yield. Numbers of a body are kept as integers: the program never computes with a
  number of a body, it only tests one for truthiness and hands it on.
\<close>

datatype jsval =
    JUndefined
  | JNull
  | JBool bool
  | JNum int
  | JStr string
  | JArr "jsval list"
  | JObj "(string \<times> jsval) list"

datatype exn = TypeError | ConstructError | ProxyError

text \<open>Truthiness, as \<^verbatim>\<open>if (v)\<close>, \<^verbatim>\<open>!v\<close>, \<^verbatim>\<open>&&\<close> and \<^verbatim>\<open>||\<close> test it.\<close>

fun truthy :: "jsval \<Rightarrow> bool" where
  "truthy JUndefined = False"
| "truthy JNull = False"
| "truthy (JBool b) = b"
| "truthy (JNum n) = (n \<noteq> 0)"
| "truthy (JStr s) = (s \<noteq> [])"
| "truthy (JArr xs) = True"
| "truthy (JObj kvs) = True"

text \<open>
  \<^verbatim>\<open>v.k\<close>: reading a property of \<^verbatim>\<open>null\<close> or \<^verbatim>\<open>undefined\<close> throws a
  TypeError; an object yields the stored value or \<^verbatim>\<open>undefined\<close>; the keys the
  program reads (message, data, valid, startTimestamp, nodePoints) are no properties
  of a boolean, number, string or array, so those yield \<^verbatim>\<open>undefined\<close>.
\<close>

fun get_prop :: "jsval \<Rightarrow> string \<Rightarrow> exn + jsval" where
  "get_prop JUndefined k = Inl TypeError"
| "get_prop JNull k = Inl TypeError"
| "get_prop (JObj kvs) k = Inr (case map_of kvs k of None \<Rightarrow> JUndefined | Some v \<Rightarrow> v)"
| "get_prop v k = Inr JUndefined"

text \<open>\<^verbatim>\<open>v?.k\<close>: \<^verbatim>\<open>undefined\<close> on \<^verbatim>\<open>null\<close> and \<^verbatim>\<open>undefined\<close>, never a throw.\<close>

fun get_prop_opt :: "jsval \<Rightarrow> string \<Rightarrow> jsval" where
  "get_prop_opt (JObj kvs) k = (case map_of kvs k of None \<Rightarrow> JUndefined | Some v \<Rightarrow> v)"
| "get_prop_opt v k = JUndefined"

text \<open>\<^verbatim>\<open>a || b\<close>.\<close>

definition js_or :: "jsval \<Rightarrow> jsval \<Rightarrow> jsval" where
  "js_or a b = (if truthy a then a else b)"

text \<open>
  Converting a value to a string, as \<^verbatim>\<open>chalk\<close> does with the one argument it is
  given (\<^verbatim>\<open>'' + value\<close>). A parsed JSON object that has a key \<^verbatim>\<open>toString\<close> of
  its own has no callable \<^verbatim>\<open>toString\<close>, and the \<^verbatim>\<open>valueOf\<close> it inherits
  returns the object: the conversion throws a TypeError. An array is joined from
  the strings of its elements. Any other value has a string.
\<close>

fun stringifies :: "jsval \<Rightarrow> bool" and stringifies_all :: "jsval list \<Rightarrow> bool" where
  "stringifies (JObj kvs) = (''toString'' \<notin> set (map fst kvs))"
| "stringifies (JArr xs) = stringifies_all xs"
| "stringifies JUndefined = True"
| "stringifies JNull = True"
| "stringifies (JBool b) = True"
| "stringifies (JNum n) = True"
| "stringifies (JStr s) = True"
| "stringifies_all [] = True"
| "stringifies_all (x # xs) = (stringifies x \<and> stringifies_all xs)"

definition chalk :: "jsval \<Rightarrow> exn + unit" where
  "chalk v = (if stringifies v then Inr () else Inl TypeError)"

definition bind_exn :: "exn + 'a \<Rightarrow> ('a \<Rightarrow> exn + 'b) \<Rightarrow> exn + 'b" where
  "bind_exn r f = (case r of Inl e \<Rightarrow> Inl e | Inr v \<Rightarrow> f v)"

text \<open>
  \<^verbatim>\<open>logger.log(level, message, value, error)\<close>, for what can throw in it: a
  truthy \<^verbatim>\<open>value\<close> is styled, and so is \<^verbatim>\<open>error.message\<close> of a truthy
  \<^verbatim>\<open>error\<close> (\<^verbatim>\<open>logger.verbose\<close> is a function, hence truthy). The level and the
  message are strings the program builds itself. A call of the logger that passes
  strings of the program's own only cannot throw and is left out of the model.
\<close>

definition logger_log :: "jsval \<Rightarrow> jsval \<Rightarrow> exn + unit" where
  "logger_log val err =
     bind_exn (if truthy val then chalk val else Inr ()) (\<lambda>_.
       if truthy err then chalk (get_prop_opt err ''message'') else Inr ())"

section \<open>Numbers\<close>

text \<open>
  A JavaScript number is an IEEE 754 binary64 value: a finite value, kept here as
  the rational it denotes, an infinity, or NaN. The sign of a zero is not kept: the
  program multiplies and divides by positive constants and hands the result to a
  timer, where the two zeros do not differ.
\<close>

datatype double = Fin rat | PInf | NInf | NaN

text \<open>The number of binary digits of a natural number.\<close>

fun bit_length :: "nat \<Rightarrow> nat" where
  "bit_length n = (if n = 0 then 0 else Suc (bit_length (n div 2)))"

declare bit_length.simps [simp del]

text \<open>The binary exponent \<open>\<lfloor>log\<^sub>2 x\<rfloor>\<close> of a positive rational.\<close>

definition ilog2 :: "rat \<Rightarrow> int" where
  "ilog2 x = (if 1 \<le> x then int (bit_length (nat \<lfloor>x\<rfloor>)) - 1
              else - int (bit_length (nat (\<lceil>1 / x\<rceil> - 1))))"

text \<open>Rounding to the nearest integer, a tie going to the even one.\<close>

definition round_even :: "rat \<Rightarrow> int" where
  "round_even t =
     (let r = \<lfloor>t\<rfloor>; f = t - of_int r
      in if f < 1 / 2 then r else if 1 / 2 < f then r + 1 else if even r then r else r + 1)"

text \<open>
  Rounding a positive rational to binary64, to nearest and ties to even: 53
  significant bits from the exponent \<open>- 1022\<close> on, multiples of \<open>2^(- 1074)\<close> below,
  and infinity from \<open>2^1024\<close> on.
\<close>

definition round_pos :: "rat \<Rightarrow> double" where
  "round_pos x =
     (let q = 2 powi (max (ilog2 x) (- 1022) - 52);
          y = of_int (round_even (x / q)) * q
      in if 2 ^ 1024 \<le> y then PInf else Fin y)"

fun dneg :: "double \<Rightarrow> double" where
  "dneg (Fin a) = Fin (- a)"
| "dneg PInf = NInf"
| "dneg NInf = PInf"
| "dneg NaN = NaN"

definition round_double :: "rat \<Rightarrow> double" where
  "round_double x = (if x = 0 then Fin 0 else if 0 < x then round_pos x else dneg (round_pos (- x)))"

text \<open>\<^verbatim>\<open>a * b\<close> and \<^verbatim>\<open>a / b\<close> on numbers: the exact result, rounded.\<close>

definition signed_inf :: "bool \<Rightarrow> double" where
  "signed_inf positive = (if positive then PInf else NInf)"

fun dmul :: "double \<Rightarrow> double \<Rightarrow> double" where
  "dmul NaN b = NaN"
| "dmul a NaN = NaN"
| "dmul (Fin a) (Fin b) = round_double (a * b)"
| "dmul (Fin a) PInf = (if a = 0 then NaN else signed_inf (0 < a))"
| "dmul (Fin a) NInf = (if a = 0 then NaN else signed_inf (a < 0))"
| "dmul PInf (Fin b) = (if b = 0 then NaN else signed_inf (0 < b))"
| "dmul NInf (Fin b) = (if b = 0 then NaN else signed_inf (b < 0))"
| "dmul PInf PInf = PInf"
| "dmul PInf NInf = NInf"
| "dmul NInf PInf = NInf"
| "dmul NInf NInf = PInf"

fun ddiv :: "double \<Rightarrow> double \<Rightarrow> double" where
  "ddiv NaN b = NaN"
| "ddiv a NaN = NaN"
| "ddiv (Fin a) (Fin b) =
     (if b = 0 then (if a = 0 then NaN else signed_inf (0 < a)) else round_double (a / b))"
| "ddiv (Fin a) PInf = Fin 0"
| "ddiv (Fin a) NInf = Fin 0"
| "ddiv PInf (Fin b) = signed_inf (0 \<le> b)"
| "ddiv NInf (Fin b) = signed_inf (b < 0)"
| "ddiv PInf PInf = NaN"
| "ddiv PInf NInf = NaN"
| "ddiv NInf PInf = NaN"
| "ddiv NInf NInf = NaN"

text \<open>A rational is a binary64 value when rounding leaves it as it is.\<close>

definition representable :: "rat \<Rightarrow> bool" where
  "representable x = (round_double x = Fin x)"

section \<open>The HTTP client\<close>

record response =
  status :: nat
  data :: jsval

text \<open>
  What one attempt meets on the network: no reply at all (connection error,
  timeout), or a reply with a status and a body.
\<close>

datatype reply = NetworkError | Reply response

text \<open>
  What \<^verbatim>\<open>await axios(config)\<close> does with it: it resolves to the response when
  \<^verbatim>\<open>config.validateStatus(status)\<close> holds, and otherwise throws an error whose
  \<^verbatim>\<open>error.response?.status\<close> is the status; without a reply the error carries
  no response.
\<close>

datatype settled = Resolved response | Rejected "nat option"

datatype agent = HttpsProxyAgent string | SocksProxyAgent string

record config =
  "method" :: string
  url :: string
  httpsAgent :: "agent option"
  timeout :: nat
  validateStatus :: "nat \<Rightarrow> bool"

definition axios :: "config \<Rightarrow> reply \<Rightarrow> settled" where
  "axios cfg r =
     (case r of
        NetworkError \<Rightarrow> Rejected None
      | Reply resp \<Rightarrow>
          if validateStatus cfg (status resp) then Resolved resp
          else Rejected (Some (status resp)))"

text \<open>
  What a request does, in order: the attempts it issues (by loop index) and the
  timers it sets between them. \<open>Wait t\<close> is a call \<^verbatim>\<open>setTimeout(resolve, t)\<close>:
  \<open>t\<close> is the number the program hands to the timer, in milliseconds. What the
  runtime makes of a number that is not a whole number of milliseconds between 1
  and \<open>2^31 - 1\<close> is the runtime's and not part of the model.
\<close>

datatype event = Attempt nat | Wait double

text \<open>\<^verbatim>\<open>delay(ms)\<close> sets a timer of \<^verbatim>\<open>ms * 1000\<close>.\<close>

definition delay :: "double \<Rightarrow> event" where
  "delay ms = Wait (dmul ms (Fin 1000))"

text \<open>
  The loop of \<^verbatim>\<open>RequestHandler.makeRequest\<close> from index \<open>i\<close>. The network is
  a function from the loop index to what that attempt meets. \<^verbatim>\<open>Math.pow\<close> is the
  engine's: the language leaves its precision to the implementation, so it is a
  parameter, \<open>pw x i\<close> for \<^verbatim>\<open>Math.pow(x, i)\<close>. The result is the response or
  \<^verbatim>\<open>null\<close> (\<open>None\<close>), with the events in order. The logger is called here with
  strings and with the error object of the HTTP client only.
\<close>

function makeRequest_loop ::
  "(double \<Rightarrow> nat \<Rightarrow> double) \<Rightarrow> config \<Rightarrow> (nat \<Rightarrow> reply) \<Rightarrow> nat \<Rightarrow> double \<Rightarrow> nat
     \<Rightarrow> response option \<times> event list" where
  "makeRequest_loop pw cfg net retries backoffMs i =
     (if i < retries then
        (case axios cfg (net i) of
           Resolved resp \<Rightarrow> (Some resp, [Attempt i])
         | Rejected st \<Rightarrow>
             (let isLastRetry = (int i = int retries - 1) in
              if st = Some 500 then
                (if isLastRetry then (None, [Attempt i])
                 else
                   (let waitTime = dmul backoffMs (pw (Fin (3 / 2)) i);
                        rest = makeRequest_loop pw cfg net retries backoffMs (i + 1)
                    in (fst rest, Attempt i # delay (ddiv waitTime (Fin 1000)) # snd rest)))
              else if isLastRetry then (None, [Attempt i])
              else
                (let rest = makeRequest_loop pw cfg net retries backoffMs (i + 1)
                 in (fst rest, Attempt i # delay (Fin 2) # snd rest))))
      else (None, []))"
  by pat_completeness auto
termination
  by (relation "measure (\<lambda>(pw, cfg, net, retries, backoffMs, i). retries - i)") auto

declare makeRequest_loop.simps [simp del]

text \<open>
  \<^verbatim>\<open>static async makeRequest(config, retries = 3, backoffMs = 2000)\<close>: an
  argument left out is \<open>None\<close> and takes its default.
\<close>

definition makeRequest ::
  "(double \<Rightarrow> nat \<Rightarrow> double) \<Rightarrow> config \<Rightarrow> nat option \<Rightarrow> double option \<Rightarrow> (nat \<Rightarrow> reply)
     \<Rightarrow> response option \<times> event list" where
  "makeRequest pw cfg retries backoffMs net =
     makeRequest_loop pw cfg net
       (case retries of None \<Rightarrow> 3 | Some r \<Rightarrow> r)
       (case backoffMs of None \<Rightarrow> Fin 2000 | Some b \<Rightarrow> b) 0"

section \<open>The account session\<close>

text \<open>
  The constructors the program takes from libraries are parameters:
  \<^verbatim>\<open>new Wallet(privateKey)\<close> gives the address of a key, or \<open>None\<close> where the
  signing library rejects the key by throwing; the two proxy agent constructors
  accept a proxy URL or reject it by throwing.
\<close>

record library =
  new_Wallet :: "string \<Rightarrow> string option"
  HttpsProxyAgent_accepts :: "string \<Rightarrow> bool"
  SocksProxyAgent_accepts :: "string \<Rightarrow> bool"

text \<open>
  \<^verbatim>\<open>newAgent\<close>: the transport for a proxy string. An absent or empty proxy is
  falsy; \<^verbatim>\<open>startsWith\<close> compares a prefix.
\<close>

definition startsWith :: "string \<Rightarrow> string \<Rightarrow> bool" where
  "startsWith s p = (take (length p) s = p)"

definition newAgent :: "library \<Rightarrow> string option \<Rightarrow> exn + agent option" where
  "newAgent lib proxy =
     (case proxy of
        None \<Rightarrow> Inr None
      | Some p \<Rightarrow>
          if p = [] then Inr None
          else if startsWith p ''http://'' then
            (if HttpsProxyAgent_accepts lib p then Inr (Some (HttpsProxyAgent p))
             else Inl ProxyError)
          else if startsWith p ''socks4://'' \<or> startsWith p ''socks5://'' then
            (if SocksProxyAgent_accepts lib p then Inr (Some (SocksProxyAgent p))
             else Inl ProxyError)
          else Inr None)"

record connection =
  refCode :: string
  proxy :: "string option"
  retryCount :: nat
  axiosConfig :: config
  wallet_address :: string

text \<open>
  The constructor. The agent is built first, for a truthy proxy only (on a falsy
  one \<^verbatim>\<open>newAgent\<close> gives \<^verbatim>\<open>null\<close> as well), then the signing wallet; either
  library may throw. The fixed header set is left out.
\<close>

definition LayerEdgeConnection ::
  "library \<Rightarrow> string option \<Rightarrow> string \<Rightarrow> string \<Rightarrow> exn + connection" where
  "LayerEdgeConnection lib prx privateKey code =
     bind_exn (newAgent lib prx) (\<lambda>ag.
       case new_Wallet lib privateKey of
         None \<Rightarrow> Inl ConstructError
       | Some addr \<Rightarrow>
           Inr \<lparr> refCode = code, proxy = prx, retryCount = 2,
                 axiosConfig = \<lparr> method = [], url = [],
                                 httpsAgent = ag,
                                 timeout = 60000,
                                 validateStatus = (\<lambda>st. st < 500) \<rparr>,
                 wallet_address = addr \<rparr>)"

text \<open>
  \<^verbatim>\<open>LayerEdgeConnection.makeRequest(method, url, config)\<close>: the session's
  configuration with the method and the URL of the call, handed to the request
  handler with the session's retry count and no third argument.
\<close>

definition connection_makeRequest ::
  "(double \<Rightarrow> nat \<Rightarrow> double) \<Rightarrow> connection \<Rightarrow> string \<Rightarrow> string \<Rightarrow> (nat \<Rightarrow> reply)
     \<Rightarrow> response option \<times> event list" where
  "connection_makeRequest pw c m u net =
     makeRequest pw ((axiosConfig c)\<lparr> method := m, url := u \<rparr>) (Some (retryCount c)) None net"

text \<open>
  The operations. Each awaits its request, reads the response and logs; signing a
  message is the library's and yields a signature. The result is the value the
  operation returns, or the exception that leaves it. Where an operation logs a
  value taken from the response, the logger's conversion of it is part of the
  operation.
\<close>

definition isWalletRegistered ::
  "(double \<Rightarrow> nat \<Rightarrow> double) \<Rightarrow> connection \<Rightarrow> (nat \<Rightarrow> reply) \<Rightarrow> exn + jsval" where
  "isWalletRegistered pw c net =
     (let response = fst (connection_makeRequest pw c ''get''
            (''https://referralapi.layeredge.io/api/referral/wallet-details/'' @ wallet_address c) net);
          otherwise =
            bind_exn (logger_log (JStr [])
                        (js_or (case response of None \<Rightarrow> JUndefined | Some r \<Rightarrow> data r) (JObj [])))
              (\<lambda>_. Inr JNull)
      in case response of
           None \<Rightarrow> otherwise
         | Some r \<Rightarrow>
             if status r = 200 then Inr (JBool True)
             else if status r = 404 then
               bind_exn (get_prop (data r) ''message'') (\<lambda>msg.
                 if msg = JStr ''user not found'' then Inr (JBool False) else otherwise)
             else otherwise)"

definition checkInvite ::
  "(double \<Rightarrow> nat \<Rightarrow> double) \<Rightarrow> connection \<Rightarrow> (nat \<Rightarrow> reply) \<Rightarrow> exn + jsval" where
  "checkInvite pw c net =
     (let response = fst (connection_makeRequest pw c ''post''
            ''https://referralapi.layeredge.io/api/referral/verify-referral-code'' net)
      in case response of
           None \<Rightarrow> Inr (JBool False)
         | Some r \<Rightarrow>
             if truthy (get_prop_opt (get_prop_opt (data r) ''data'') ''valid'')
             then Inr (JBool True) else Inr (JBool False))"

definition registerWallet ::
  "(double \<Rightarrow> nat \<Rightarrow> double) \<Rightarrow> connection \<Rightarrow> (nat \<Rightarrow> reply) \<Rightarrow> exn + jsval" where
  "registerWallet pw c net =
     (let response = fst (connection_makeRequest pw c ''post''
            (''https://referralapi.layeredge.io/api/referral/register-wallet/'' @ refCode c) net);
          otherwise =
            bind_exn (logger_log
                        (js_or (case response of None \<Rightarrow> JUndefined | Some r \<Rightarrow> data r) (JObj []))
                        JNull)
              (\<lambda>_. Inr (JBool False))
      in case response of
           None \<Rightarrow> otherwise
         | Some r \<Rightarrow> if status r = 200 then Inr (JBool True) else otherwise)"

definition dailyCheckIn ::
  "(double \<Rightarrow> nat \<Rightarrow> double) \<Rightarrow> connection \<Rightarrow> (nat \<Rightarrow> reply) \<Rightarrow> exn + jsval" where
  "dailyCheckIn pw c net =
     (let response = fst (connection_makeRequest pw c ''post''
            ''https://referralapi.layeredge.io/api/light-node/claim-node-points'' net)
      in case response of
           None \<Rightarrow> Inr (JBool False)
         | Some r \<Rightarrow> if truthy (data r) then Inr (JBool True) else Inr (JBool False))"

definition checkNodeStatus ::
  "(double \<Rightarrow> nat \<Rightarrow> double) \<Rightarrow> connection \<Rightarrow> (nat \<Rightarrow> reply) \<Rightarrow> exn + jsval" where
  "checkNodeStatus pw c net =
     (let response = fst (connection_makeRequest pw c ''get''
            (''https://referralapi.layeredge.io/api/light-node/node-status/'' @ wallet_address c) net)
      in case response of
           None \<Rightarrow> Inr (JBool False)
         | Some r \<Rightarrow>
             if truthy (data r) then
               bind_exn (get_prop (data r) ''data'') (\<lambda>d.
               bind_exn (get_prop d ''startTimestamp'') (\<lambda>t.
                 if t \<noteq> JNull then Inr (JBool True) else Inr (JBool False)))
             else Inr (JBool False))"

definition connectNode ::
  "(double \<Rightarrow> nat \<Rightarrow> double) \<Rightarrow> connection \<Rightarrow> (nat \<Rightarrow> reply) \<Rightarrow> exn + jsval" where
  "connectNode pw c net =
     (let response = fst (connection_makeRequest pw c ''post''
            (''https://referralapi.layeredge.io/api/light-node/node-action/'' @ wallet_address c
               @ ''/start'') net)
      in case response of
           None \<Rightarrow> Inr (JBool False)
         | Some r \<Rightarrow>
             if truthy (data r) then
               bind_exn (get_prop (data r) ''message'') (\<lambda>msg.
                 if msg = JStr ''node action executed successfully''
                 then Inr (JBool True) else Inr (JBool False))
             else Inr (JBool False))"

definition stopNode ::
  "(double \<Rightarrow> nat \<Rightarrow> double) \<Rightarrow> connection \<Rightarrow> (nat \<Rightarrow> reply) \<Rightarrow> exn + jsval" where
  "stopNode pw c net =
     (let response = fst (connection_makeRequest pw c ''post''
            (''https://referralapi.layeredge.io/api/light-node/node-action/'' @ wallet_address c
               @ ''/stop'') net)
      in case response of
           None \<Rightarrow> Inr (JBool False)
         | Some r \<Rightarrow> if truthy (data r) then Inr (JBool True) else Inr (JBool False))"

definition checkNodePoints ::
  "(double \<Rightarrow> nat \<Rightarrow> double) \<Rightarrow> connection \<Rightarrow> (nat \<Rightarrow> reply) \<Rightarrow> exn + jsval" where
  "checkNodePoints pw c net =
     (let response = fst (connection_makeRequest pw c ''get''
            (''https://referralapi.layeredge.io/api/referral/wallet-details/'' @ wallet_address c) net)
      in case response of
           None \<Rightarrow> Inr JNull
         | Some r \<Rightarrow>
             if truthy (data r) then
               bind_exn (get_prop (data r) ''data'') (\<lambda>d.
                 let nodePoints = js_or (get_prop_opt d ''nodePoints'') (JNum 0)
                 in bind_exn (logger_log nodePoints JNull) (\<lambda>_. Inr nodePoints))
             else Inr JNull)"

section \<open>The workflow of one account\<close>

datatype op =
    IsWalletRegistered | CheckInvite | RegisterWallet | DailyCheckIn
  | CheckNodeStatus | StopNode | ConnectNode | CheckNodePoints

record wallet =
  address :: string
  privateKey :: string
  wproxy :: "string option"
  wrefCode :: string
  point :: jsval

record stats =
  success :: nat
  failed :: nat

text \<open>
  What surrounds one account: the engine's \<^verbatim>\<open>Math.pow\<close>, the libraries, and for
  each operation what the attempts of its request meet.
\<close>

record env =
  Math_pow :: "double \<Rightarrow> nat \<Rightarrow> double"
  lib :: library
  net :: "op \<Rightarrow> nat \<Rightarrow> reply"

text \<open>
  How a stretch of the \<^verbatim>\<open>try\<close> block ends: an exception on its way to the
  \<^verbatim>\<open>catch\<close>, a \<^verbatim>\<open>return\<close>, or a value with which the block goes on. With it
  come the operations called so far, in order.
\<close>

datatype 'a ctl = Throw exn | Return | Next 'a

type_synonym 'a traced = "op list \<times> 'a ctl"

definition call :: "op \<Rightarrow> exn + 'a \<Rightarrow> 'a traced" where
  "call f r = ([f], case r of Inl e \<Rightarrow> Throw e | Inr v \<Rightarrow> Next v)"

definition seq :: "'a traced \<Rightarrow> ('a \<Rightarrow> 'b traced) \<Rightarrow> 'b traced" where
  "seq m f =
     (case snd m of
        Throw e \<Rightarrow> (fst m, Throw e)
      | Return \<Rightarrow> (fst m, Return)
      | Next v \<Rightarrow> (fst m @ fst (f v), snd (f v)))"

text \<open>The \<^verbatim>\<open>try\<close> block of \<^verbatim>\<open>processWallet\<close>, up to the point total it fetched.\<close>

definition processWallet_try :: "env \<Rightarrow> wallet \<Rightarrow> jsval traced" where
  "processWallet_try e w =
     seq ([], case LayerEdgeConnection (lib e) (wproxy w) (privateKey w) (wrefCode w) of
                Inl x \<Rightarrow> Throw x | Inr c \<Rightarrow> Next c) (\<lambda>socket.
     seq (call IsWalletRegistered (isWalletRegistered (Math_pow e) socket (net e IsWalletRegistered))) (\<lambda>isRegistered.
     seq (if isRegistered = JBool False then
            seq (call CheckInvite (checkInvite (Math_pow e) socket (net e CheckInvite))) (\<lambda>isValidInvite.
              if \<not> truthy isValidInvite then ([], Return)
              else
                seq (call RegisterWallet (registerWallet (Math_pow e) socket (net e RegisterWallet))) (\<lambda>registered.
                  if \<not> truthy registered then ([], Return) else ([], Next ())))
          else ([], Next ())) (\<lambda>_.
     seq (call DailyCheckIn (dailyCheckIn (Math_pow e) socket (net e DailyCheckIn))) (\<lambda>_.
     seq (call CheckNodeStatus (checkNodeStatus (Math_pow e) socket (net e CheckNodeStatus))) (\<lambda>isRunning.
     seq (if truthy isRunning then
            seq (call StopNode (stopNode (Math_pow e) socket (net e StopNode))) (\<lambda>_. ([], Next ()))
          else ([], Next ())) (\<lambda>_.
     seq (call ConnectNode (connectNode (Math_pow e) socket (net e ConnectNode))) (\<lambda>_.
     seq (call CheckNodePoints (checkNodePoints (Math_pow e) socket (net e CheckNodePoints))) (\<lambda>p.
       ([], Next p)))))))))"

text \<open>
  \<^verbatim>\<open>processWallet\<close>: after the last step the point total is stored on the
  account and \<^verbatim>\<open>stats.success\<close> goes up; the \<^verbatim>\<open>catch\<close> raises
  \<^verbatim>\<open>stats.failed\<close>; a \<^verbatim>\<open>return\<close> inside the block leaves the function with
  neither. The third component says which of the three happened.
\<close>

datatype ending = Completed | ReturnedEarly | Caught exn

definition processWallet :: "env \<Rightarrow> wallet \<Rightarrow> stats \<Rightarrow> wallet \<times> stats \<times> ending" where
  "processWallet e w st =
     (case snd (processWallet_try e w) of
        Next p \<Rightarrow> (w\<lparr> point := p \<rparr>, st\<lparr> success := success st + 1 \<rparr>, Completed)
      | Return \<Rightarrow> (w, st, ReturnedEarly)
      | Throw x \<Rightarrow> (w, st\<lparr> failed := failed st + 1 \<rparr>, Caught x))"

section \<open>Batches\<close>

text \<open>
  The state of a run: the accounts (each workflow writes the point field of its
  own account), the counters, and for every batch that has settled the accounts of
  that batch by index with how each ended.

  The workflows of a batch run interleaved on one thread. Each reads and writes
  its own account and its own session only; the one shared object is the
  counters, and a workflow touches them in a single increment at its end. The
  state after \<^verbatim>\<open>await Promise.allSettled(...)\<close> therefore is the same for every
  interleaving, and the model settles the accounts of a batch in index order.
\<close>

record run =
  wallets :: "wallet list"
  counters :: stats
  batches :: "(nat \<times> ending) list list"

type_synonym progress = "wallet list \<times> stats \<times> (nat \<times> ending) list"

definition settle :: "(nat \<Rightarrow> env) \<Rightarrow> progress \<Rightarrow> nat \<Rightarrow> progress" where
  "settle envs s k =
     (case s of (ws, st, sofar) \<Rightarrow>
        (case processWallet (envs k) (ws ! k) st of
           (w', st', e) \<Rightarrow> (ws[k := w'], st', sofar @ [(k, e)])))"

text \<open>
  One round of the loop: \<^verbatim>\<open>wallets.slice(i, i + batchSize)\<close> holds the indices
  from \<open>i\<close> up to \<open>i + batchSize\<close>, cut at the end of the list, and the round is
  over when all of them have settled.
\<close>

definition allSettled :: "(nat \<Rightarrow> env) \<Rightarrow> nat \<Rightarrow> nat \<Rightarrow> run \<Rightarrow> run" where
  "allSettled envs i batchSize r =
     (case foldl (settle envs) (wallets r, counters r, [])
             [i ..< min (i + batchSize) (length (wallets r))] of
        (ws', st', sofar) \<Rightarrow> \<lparr> wallets = ws', counters = st', batches = batches r @ [sofar] \<rparr>)"

text \<open>
  The loop \<^verbatim>\<open>for (let i = 0; i < total; i += batchSize)\<close>, with \<open>n\<close> for
  \<^verbatim>\<open>total\<close>. With a batch size of 0 it does not end; \<open>None\<close> is not returning.
\<close>

partial_function (option) batches_loop ::
  "(nat \<Rightarrow> env) \<Rightarrow> nat \<Rightarrow> nat \<Rightarrow> nat \<Rightarrow> run \<Rightarrow> run option" where
  "batches_loop envs n batchSize i r =
     (if i < n then batches_loop envs n batchSize (i + batchSize) (allSettled envs i batchSize r)
      else Some r)"

definition processWalletsInBatches :: "(nat \<Rightarrow> env) \<Rightarrow> wallet list \<Rightarrow> nat \<Rightarrow> run option" where
  "processWalletsInBatches envs ws batchSize =
     batches_loop envs (length ws) batchSize 0
       \<lparr> wallets = ws, counters = \<lparr> success = 0, failed = 0 \<rparr>, batches = [] \<rparr>"

section \<open>Reading traces and runs\<close>

text \<open>
  The loop indices of the attempts of a trace, and its waits, in order.
\<close>

fun attempts :: "event list \<Rightarrow> nat list" where
  "attempts [] = []"
| "attempts (Attempt i # es) = i # attempts es"
| "attempts (Wait w # es) = attempts es"

fun waits :: "event list \<Rightarrow> double list" where
  "waits [] = []"
| "waits (Attempt i # es) = waits es"
| "waits (Wait w # es) = w # waits es"

text \<open>
  How many of the attempts \<open>0, \<dots>, i\<close> failed with status 500.
\<close>

definition server_faults_upto :: "config \<Rightarrow> (nat \<Rightarrow> reply) \<Rightarrow> nat \<Rightarrow> nat" where
  "server_faults_upto cfg nw i =
     length (filter (\<lambda>j. axios cfg (nw j) = Rejected (Some 500)) [0..<Suc i])"

text \<open>
  The rest of the \<^verbatim>\<open>try\<close> block of \<^verbatim>\<open>processWallet\<close> from the daily check-in
  on, as \<open>processWallet_try\<close> has it.
\<close>

definition from_attestation :: "connection \<Rightarrow> env \<Rightarrow> jsval traced" where
  "from_attestation socket e =
     seq (call DailyCheckIn (dailyCheckIn (Math_pow e) socket (net e DailyCheckIn))) (\<lambda>_.
     seq (call CheckNodeStatus (checkNodeStatus (Math_pow e) socket (net e CheckNodeStatus))) (\<lambda>isRunning.
     seq (if truthy isRunning then
            seq (call StopNode (stopNode (Math_pow e) socket (net e StopNode))) (\<lambda>_. ([], Next ()))
          else ([], Next ())) (\<lambda>_.
     seq (call ConnectNode (connectNode (Math_pow e) socket (net e ConnectNode))) (\<lambda>_.
     seq (call CheckNodePoints (checkNodePoints (Math_pow e) socket (net e CheckNodePoints))) (\<lambda>p.
       ([], Next p))))))"

text \<open>
  What \<^verbatim>\<open>processWallet\<close> does for one account taken by itself: how it ends and
  what it leaves in the account. Neither depends on the counters it is given.
\<close>

definition own_ending :: "env \<Rightarrow> wallet \<Rightarrow> ending" where
  "own_ending e w = snd (snd (processWallet e w \<lparr> success = 0, failed = 0 \<rparr>))"

definition own_wallet :: "env \<Rightarrow> wallet \<Rightarrow> wallet" where
  "own_wallet e w = fst (processWallet e w \<lparr> success = 0, failed = 0 \<rparr>)"

text \<open>
  The effect of one ending on the counters, and the endings that went through the \<^verbatim>\<open>catch\<close>.
\<close>

fun count_ending :: "stats \<Rightarrow> ending \<Rightarrow> stats" where
  "count_ending st Completed = st\<lparr> success := success st + 1 \<rparr>"
| "count_ending st ReturnedEarly = st"
| "count_ending st (Caught x) = st\<lparr> failed := failed st + 1 \<rparr>"

fun is_caught :: "ending \<Rightarrow> bool" where
  "is_caught (Caught x) = True"
| "is_caught e = False"

text \<open>
  The state of a run once the first \<open>g\<close> batches of size \<open>B\<close> have settled, in
  closed form.
\<close>

definition after_batches :: "(nat \<Rightarrow> env) \<Rightarrow> wallet list \<Rightarrow> nat \<Rightarrow> nat \<Rightarrow> run" where
  "after_batches envs ws B g =
     \<lparr> wallets = map (\<lambda>k. if k < g * B then own_wallet (envs k) (ws ! k) else ws ! k) [0..<length ws],
       counters = foldl count_ending \<lparr> success = 0, failed = 0 \<rparr>
                    (map (\<lambda>k. own_ending (envs k) (ws ! k)) [0..<min (g * B) (length ws)]),
       batches = map (\<lambda>j. map (\<lambda>k. (k, own_ending (envs k) (ws ! k)))
                                [j * B..<min (j * B + B) (length ws)]) [0..<g] \<rparr>"

text \<open>
  The timer the loop sets after a failure with status 500 at index \<open>i\<close>:
  \<^verbatim>\<open>backoffMs * Math.pow(1.5, i)\<close>, divided by 1000 on its way into
  \<^verbatim>\<open>delay\<close> and multiplied by 1000 there, each of the three operations rounded.
\<close>

definition backoff_timer :: "(double \<Rightarrow> nat \<Rightarrow> double) \<Rightarrow> double \<Rightarrow> nat \<Rightarrow> double" where
  "backoff_timer pw b i = dmul (ddiv (dmul b (pw (Fin (3 / 2)) i)) (Fin 1000)) (Fin 1000)"

section \<open>Inputs for the examples\<close>

text \<open>
  Networks: one that meets the listed replies in turn and nothing after them, one
  that meets the same reply at every attempt, and one that answers each operation
  from a table (an operation missing from the table gets no reply).
\<close>

definition script :: "reply list \<Rightarrow> nat \<Rightarrow> reply" where
  "script rs i = (if i < length rs then rs ! i else NetworkError)"

definition always :: "reply \<Rightarrow> nat \<Rightarrow> reply" where
  "always r i = r"

definition answers :: "(op \<times> reply) list \<Rightarrow> op \<Rightarrow> nat \<Rightarrow> reply" where
  "answers tbl f i = (case map_of tbl f of None \<Rightarrow> NetworkError | Some r \<Rightarrow> r)"

definition flaky_then_fault :: "nat \<Rightarrow> reply" where
  "flaky_then_fault =
     script [NetworkError, Reply \<lparr> status = 500, data = JNull \<rparr>,
             Reply \<lparr> status = 200, data = JNull \<rparr>]"

definition demo_config :: config where
  "demo_config = \<lparr> method = ''get'', url = ''https://example.invalid/'', httpsAgent = None,
                    timeout = 60000, validateStatus = (\<lambda>st. st < 500) \<rparr>"

text \<open>An engine whose \<^verbatim>\<open>Math.pow\<close> is correctly rounded.\<close>

definition demo_pow :: "double \<Rightarrow> nat \<Rightarrow> double" where
  "demo_pow x n =
     (if n = 0 then Fin 1
      else case x of
             Fin a \<Rightarrow> round_double (a ^ n)
           | PInf \<Rightarrow> PInf
           | NInf \<Rightarrow> (if even n then PInf else NInf)
           | NaN \<Rightarrow> NaN)"

text \<open>
  Libraries: a signing library that rejects the empty key only, agent constructors
  that reject a URL with a blank in it, and the session they give for the key
  \<open>key\<close> without a proxy.
\<close>

definition demo_Wallet :: "string \<Rightarrow> string option" where
  "demo_Wallet k = (if k = [] then None else Some (''0x'' @ k))"

definition demo_accepts :: "string \<Rightarrow> bool" where
  "demo_accepts p = (CHR '' '' \<notin> set p)"

definition demo_lib :: library where
  "demo_lib = \<lparr> new_Wallet = demo_Wallet, HttpsProxyAgent_accepts = demo_accepts,
                 SocksProxyAgent_accepts = demo_accepts \<rparr>"

definition demo_connection :: connection where
  "demo_connection =
     \<lparr> refCode = ''ref'', proxy = None, retryCount = 2,
       axiosConfig = \<lparr> method = [], url = [], httpsAgent = None, timeout = 60000,
                       validateStatus = (\<lambda>st. st < 500) \<rparr>,
       wallet_address = ''0xkey'' \<rparr>"

definition demo_wallet :: wallet where
  "demo_wallet = \<lparr> address = ''0xkey'', privateKey = ''key'', wproxy = None,
                    wrefCode = ''ref'', point = JNum 0 \<rparr>"

definition keyless_wallet :: wallet where
  "keyless_wallet = \<lparr> address = [], privateKey = [], wproxy = None,
                       wrefCode = ''ref'', point = JNum 0 \<rparr>"

text \<open>
  Remote services: one that is unreachable; one that meets a new account with a
  valid referral code and a stopped node; one that meets a registered account with
  a running node; one that rejects the referral code; one that answers the
  node-status query with an error body.
\<close>

definition env_offline :: env where
  "env_offline = \<lparr> Math_pow = demo_pow, lib = demo_lib, net = answers [] \<rparr>"

definition env_newcomer :: env where
  "env_newcomer = \<lparr> Math_pow = demo_pow, lib = demo_lib, net = answers
     [(IsWalletRegistered, Reply \<lparr> status = 404, data = JObj [(''message'', JStr ''user not found'')] \<rparr>),
      (CheckInvite, Reply \<lparr> status = 200, data = JObj [(''data'', JObj [(''valid'', JBool True)])] \<rparr>),
      (RegisterWallet, Reply \<lparr> status = 200, data = JObj [(''message'', JStr ''registered'')] \<rparr>),
      (DailyCheckIn, Reply \<lparr> status = 200, data = JObj [(''message'', JStr ''claimed'')] \<rparr>),
      (CheckNodeStatus, Reply \<lparr> status = 200, data = JObj [(''data'', JObj [(''startTimestamp'', JNull)])] \<rparr>),
      (ConnectNode, Reply \<lparr> status = 200, data = JObj [(''message'', JStr ''node action executed successfully'')] \<rparr>),
      (CheckNodePoints, Reply \<lparr> status = 200, data = JObj [(''data'', JObj [])] \<rparr>)] \<rparr>"

definition env_running :: env where
  "env_running = \<lparr> Math_pow = demo_pow, lib = demo_lib, net = answers
     [(IsWalletRegistered, Reply \<lparr> status = 200, data = JObj [(''data'', JObj [(''nodePoints'', JNum 1250)])] \<rparr>),
      (DailyCheckIn, Reply \<lparr> status = 200, data = JObj [(''message'', JStr ''claimed'')] \<rparr>),
      (CheckNodeStatus, Reply \<lparr> status = 200, data = JObj [(''data'', JObj [(''startTimestamp'', JNum 1700000000)])] \<rparr>),
      (StopNode, Reply \<lparr> status = 200, data = JObj [(''message'', JStr ''node action executed successfully'')] \<rparr>),
      (ConnectNode, Reply \<lparr> status = 200, data = JObj [(''message'', JStr ''node action executed successfully'')] \<rparr>),
      (CheckNodePoints, Reply \<lparr> status = 200, data = JObj [(''data'', JObj [(''nodePoints'', JNum 1250)])] \<rparr>)] \<rparr>"

definition env_bad_invite :: env where
  "env_bad_invite = \<lparr> Math_pow = demo_pow, lib = demo_lib, net = answers
     [(IsWalletRegistered, Reply \<lparr> status = 404, data = JObj [(''message'', JStr ''user not found'')] \<rparr>),
      (CheckInvite, Reply \<lparr> status = 200, data = JObj [(''data'', JObj [(''valid'', JBool False)])] \<rparr>)] \<rparr>"

definition env_status_error :: env where
  "env_status_error = \<lparr> Math_pow = demo_pow, lib = demo_lib, net = answers
     [(IsWalletRegistered, Reply \<lparr> status = 200, data = JObj [] \<rparr>),
      (CheckNodeStatus, Reply \<lparr> status = 429, data = JObj [(''message'', JStr ''too many requests'')] \<rparr>)] \<rparr>"

definition pick :: "env list \<Rightarrow> nat \<Rightarrow> env" where
  "pick es k = (if k < length es then es ! k else env_offline)"

section \<open>Rounding to binary64\<close>

text \<open>
  A rational with a significand below \<open>2^53\<close> and an exponent from \<open>- 1074\<close> on is
  a binary64 value: rounding leaves it as it is.
\<close>

lemma bit_length_less: "n < 2 ^ bit_length n"
proof (induction n rule: bit_length.induct)
  case (1 n)
  show ?case
  proof (cases "n = 0")
    case True
    then show ?thesis by simp
  next
    case False
    with 1 have "n div 2 < 2 ^ bit_length (n div 2)" by simp
    then have "n < 2 * 2 ^ bit_length (n div 2)" by linarith
    then show ?thesis using False by (subst bit_length.simps) simp
  qed
qed

lemma bit_length_ge: "n \<noteq> 0 \<Longrightarrow> 2 ^ (bit_length n - 1) \<le> n"
proof (induction n rule: bit_length.induct)
  case (1 n)
  show ?case
  proof (cases "n div 2 = 0")
    case True
    with "1.prems" have "n = 1" by linarith
    then show ?thesis by (simp add: bit_length.simps)
  next
    case False
    with 1 have ih: "2 ^ (bit_length (n div 2) - 1) \<le> n div 2" by simp
    have pos: "0 < bit_length (n div 2)" using False by (subst bit_length.simps) simp
    have "bit_length n = Suc (bit_length (n div 2))"
      using "1.prems" by (subst bit_length.simps) simp
    then have "(2::nat) ^ (bit_length n - 1) = 2 * 2 ^ (bit_length (n div 2) - 1)"
      using pos by (cases "bit_length (n div 2)") simp_all
    also have "\<dots> \<le> 2 * (n div 2)" using ih by simp
    also have "\<dots> \<le> n" by simp
    finally show ?thesis .
  qed
qed

lemma bit_length_pos: "n \<noteq> 0 \<Longrightarrow> 0 < bit_length n"
  by (subst bit_length.simps) simp

lemma ilog2_lower:
  assumes "0 < x"
  shows "2 powi ilog2 x \<le> x"
proof (cases "1 \<le> x")
  case True
  let ?n = "nat \<lfloor>x\<rfloor>"
  have n1: "1 \<le> \<lfloor>x\<rfloor>" using True by simp
  then have nz: "?n \<noteq> 0" by simp
  have e: "ilog2 x = int (bit_length ?n - 1)"
    using True bit_length_pos[OF nz] by (simp add: ilog2_def of_nat_diff)
  have "(2::rat) ^ (bit_length ?n - 1) = of_nat (2 ^ (bit_length ?n - 1))" by simp
  also have "\<dots> \<le> of_nat ?n" using bit_length_ge[OF nz] by (simp only: of_nat_le_iff)
  also have "\<dots> = of_int \<lfloor>x\<rfloor>" using n1 by simp
  also have "\<dots> \<le> x" by (rule of_int_floor_le)
  finally show ?thesis by (simp add: e)
next
  case False
  let ?j = "nat (\<lceil>1 / x\<rceil> - 1)"
  let ?k = "bit_length ?j"
  have e: "ilog2 x = - int ?k" using False by (simp add: ilog2_def)
  have "1 / x \<le> of_int \<lceil>1 / x\<rceil>" by (rule le_of_int_ceiling)
  also have "\<lceil>1 / x\<rceil> \<le> int ?j + 1" by linarith
  also have "int ?j + 1 \<le> int (2 ^ ?k)" using bit_length_less[of ?j] by linarith
  finally have "1 / x \<le> 2 ^ ?k" by simp
  then have "1 \<le> 2 ^ ?k * x" using assms by (simp add: pos_divide_le_eq)
  then have "1 / 2 ^ ?k \<le> x" by (simp add: field_simps)
  then show ?thesis by (simp add: e power_int_minus_divide)
qed

lemma ilog2_upper:
  assumes "0 < x"
  shows "x < 2 powi (ilog2 x + 1)"
proof (cases "1 \<le> x")
  case True
  let ?n = "nat \<lfloor>x\<rfloor>"
  have n1: "1 \<le> \<lfloor>x\<rfloor>" using True by simp
  then have nz: "?n \<noteq> 0" by simp
  have e: "ilog2 x + 1 = int (bit_length ?n)"
    using True by (simp add: ilog2_def)
  have "x < of_int \<lfloor>x\<rfloor> + 1" by linarith
  also have "\<dots> = of_nat (?n + 1)" using n1 by simp
  also have "\<dots> \<le> of_nat (2 ^ bit_length ?n)"
  proof -
    have "?n + 1 \<le> 2 ^ bit_length ?n" using Suc_leI[OF bit_length_less[of ?n]] by simp
    then show ?thesis by (simp only: of_nat_le_iff)
  qed
  finally show ?thesis by (simp add: e)
next
  case False
  then have x1: "x < 1" by simp
  define c where "c = \<lceil>1 / x\<rceil>"
  define j where "j = nat (c - 1)"
  define k where "k = bit_length j"
  have big: "1 < 1 / x" using assms x1 by simp
  have c2: "2 \<le> c" unfolding c_def using big by linarith
  have jc: "int j = c - 1" unfolding j_def using c2 by simp
  have jz: "j \<noteq> 0" using jc c2 by auto
  have kpos: "0 < k" unfolding k_def using jz by (rule bit_length_pos)
  have e: "ilog2 x + 1 = - int (k - 1)"
    using False kpos by (simp add: ilog2_def of_nat_diff k_def j_def c_def)
  have below: "of_int c - 1 < 1 / x" unfolding c_def by linarith
  have "(2::rat) ^ (k - 1) = of_nat (2 ^ (k - 1))" by simp
  also have "\<dots> \<le> of_nat j" using bit_length_ge[OF jz] unfolding k_def by (simp only: of_nat_le_iff)
  also have "\<dots> = of_int (int j)" by simp
  also have "\<dots> = of_int c - 1" by (simp only: jc of_int_diff of_int_1)
  also have "\<dots> < 1 / x" by (rule below)
  finally have "2 ^ (k - 1) * x < 1" using assms by (simp add: pos_less_divide_eq)
  then have "x < 1 / 2 ^ (k - 1)" by (simp add: field_simps)
  then show ?thesis by (simp only: e power_int_minus_divide power_int_of_nat)
qed

lemma round_even_int: "round_even (of_int j) = j"
  by (simp add: round_even_def)

lemma round_pos_exact:
  assumes pos: "0 < x" and x: "x = of_nat m * 2 powi e" and m: "m < 2 ^ 53"
    and e: "- 1074 \<le> e" and fin: "x < 2 ^ 1024"
  shows "round_pos x = Fin x"
proof -
  let ?g = "max (ilog2 x) (- 1022) - 52"
  have "2 powi ilog2 x \<le> x" using pos by (rule ilog2_lower)
  also have "x < of_nat (2 ^ 53) * 2 powi e"
    unfolding x using m by (simp only: of_nat_less_iff mult_less_cancel_right_pos zero_less_power_int zero_less_numeral)
  also have "\<dots> = 2 powi (53 + e)" by (simp add: power_int_add)
  finally have lt: "(2::rat) powi ilog2 x < 2 powi (53 + e)" .
  have "ilog2 x < 53 + e"
  proof (rule ccontr)
    assume "\<not> ilog2 x < 53 + e"
    then have "53 + e \<le> ilog2 x" by simp
    then have "(2::rat) powi (53 + e) \<le> 2 powi ilog2 x" by (rule power_int_increasing) simp
    with lt show False by simp
  qed
  then have ge: "?g \<le> e" using e by simp
  have q: "x / 2 powi ?g = of_int (int (m * 2 ^ nat (e - ?g)))"
  proof -
    have "x / 2 powi ?g = of_nat m * 2 powi (e - ?g)" unfolding x by (simp add: power_int_diff)
    also have "2 powi (e - ?g) = (2::rat) ^ nat (e - ?g)" using ge by (simp add: power_int_nonneg_exp)
    finally show ?thesis by simp
  qed
  have restored: "of_int (int (m * 2 ^ nat (e - ?g))) * 2 powi ?g = x"
    unfolding q[symmetric] by simp
  show ?thesis
    unfolding round_pos_def Let_def q round_even_int restored using fin by simp
qed

lemma representable_powi:
  assumes "0 < m" and "m < 2 ^ 53" and "- 1074 \<le> e" and "e \<le> 970"
  shows "representable (of_nat m * 2 powi e)"
proof -
  let ?x = "(of_nat m :: rat) * 2 powi e"
  have pos: "0 < ?x" using assms(1) by simp
  have "?x < of_nat (2 ^ 53) * 2 powi e"
    using assms(2) by (simp only: of_nat_less_iff mult_less_cancel_right_pos zero_less_power_int zero_less_numeral)
  also have "\<dots> = 2 powi (53 + e)" by (simp add: power_int_add)
  also have "\<dots> \<le> 2 powi 1024" using assms(4) by (intro power_int_increasing) simp_all
  finally have fin: "?x < 2 ^ 1024" by simp
  have "round_pos ?x = Fin ?x"
    using pos refl assms(2) assms(3) fin by (rule round_pos_exact)
  then show ?thesis using pos by (simp add: representable_def round_double_def)
qed

lemma two_thousand: "round_double 2000 = Fin 2000"
  by code_simp

lemma delay_two: "delay (Fin 2) = Wait (Fin 2000)"
  by (simp add: delay_def two_thousand)

lemma backoff_timer_exact:
  assumes "pw (Fin (3 / 2)) i = Fin ((3 / 2) ^ i)"
    and "representable (x * (3 / 2) ^ i)" and "representable (x * (3 / 2) ^ i / 1000)"
  shows "backoff_timer pw (Fin x) i = Fin (x * (3 / 2) ^ i)"
  using assms by (simp add: backoff_timer_def representable_def)

lemma default_backoff_representable:
  assumes "i \<le> 29"
  shows "representable (2000 * (3 / 2) ^ i)" and "representable (2000 * (3 / 2) ^ i / 1000)"
proof -
  have p3: "(3::nat) ^ i \<le> 3 ^ 29" using assms by (intro power_increasing) simp_all
  have m1: "125 * 3 ^ i < (2::nat) ^ 53" using p3 by simp
  have m2: "3 ^ i < (2::nat) ^ 53" using p3 by simp
  have half: "((3::rat) / 2) ^ i = of_nat (3 ^ i) * 2 powi (- int i)"
    by (simp add: power_divide power_int_minus_divide)
  have a: "(2000::rat) * (3 / 2) ^ i = of_nat (125 * 3 ^ i) * 2 powi (4 - int i)"
    unfolding half by (simp add: power_int_diff power_int_minus_divide)
  have b: "(2000::rat) * (3 / 2) ^ i / 1000 = of_nat (3 ^ i) * 2 powi (1 - int i)"
    unfolding half by (simp add: power_int_diff power_int_minus_divide)
  show "representable (2000 * (3 / 2) ^ i)"
    unfolding a using m1 assms by (intro representable_powi) simp_all
  show "representable (2000 * (3 / 2) ^ i / 1000)"
    unfolding b using m2 assms by (intro representable_powi) simp_all
qed

lemma demo_pow_exact: "i \<le> 33 \<Longrightarrow> demo_pow (Fin (3 / 2)) i = Fin ((3 / 2) ^ i)"
proof (cases "i = 0")
  case True
  then show ?thesis by (simp add: demo_pow_def)
next
  case False
  assume i: "i \<le> 33"
  have "(3::nat) ^ i \<le> 3 ^ 33" using i by (intro power_increasing) simp_all
  then have m: "3 ^ i < (2::nat) ^ 53" by simp
  have eq: "((3::rat) / 2) ^ i = of_nat (3 ^ i) * 2 powi (- int i)"
    by (simp add: power_divide power_int_minus_divide)
  have "representable (((3::rat) / 2) ^ i)"
    unfolding eq using m i by (intro representable_powi) simp_all
  then show ?thesis using False by (simp add: demo_pow_def representable_def)
qed

section \<open>The retry loop, step by step\<close>

lemma loop_done: "r \<le> i \<Longrightarrow> makeRequest_loop pw cfg nw r b i = (None, [])"
  by (subst makeRequest_loop.simps) simp

lemma loop_resolved:
  "i < r \<Longrightarrow> axios cfg (nw i) = Resolved resp \<Longrightarrow>
   makeRequest_loop pw cfg nw r b i = (Some resp, [Attempt i])"
  by (subst makeRequest_loop.simps) simp

lemma loop_last:
  "Suc i = r \<Longrightarrow> axios cfg (nw i) = Rejected st \<Longrightarrow>
   makeRequest_loop pw cfg nw r b i = (None, [Attempt i])"
  by (subst makeRequest_loop.simps) auto

lemma loop_500_step:
  "Suc i < r \<Longrightarrow> axios cfg (nw i) = Rejected (Some 500) \<Longrightarrow>
   makeRequest_loop pw cfg nw r b i =
     (fst (makeRequest_loop pw cfg nw r b (Suc i)),
      Attempt i # Wait (backoff_timer pw b i) # snd (makeRequest_loop pw cfg nw r b (Suc i)))"
  by (subst makeRequest_loop.simps) (simp add: Let_def delay_def backoff_timer_def)

lemma loop_other_step:
  "Suc i < r \<Longrightarrow> axios cfg (nw i) = Rejected st \<Longrightarrow> st \<noteq> Some 500 \<Longrightarrow>
   makeRequest_loop pw cfg nw r b i =
     (fst (makeRequest_loop pw cfg nw r b (Suc i)),
      Attempt i # Wait (Fin 2000) # snd (makeRequest_loop pw cfg nw r b (Suc i)))"
  by (subst makeRequest_loop.simps) (simp add: Let_def delay_two)

lemma loop_all_500:
  "i < r \<Longrightarrow> \<forall>j. i \<le> j \<and> j < r \<longrightarrow> axios cfg (nw j) = Rejected (Some 500) \<Longrightarrow>
   makeRequest_loop pw cfg nw r b i =
     (None, concat (map (\<lambda>j. [Attempt j, Wait (backoff_timer pw b j)]) [i..<r-1]) @ [Attempt (r-1)])"
proof (induction "r - i" arbitrary: i)
  case 0
  then show ?case by simp
next
  case (Suc d)
  have a: "axios cfg (nw i) = Rejected (Some 500)" using Suc.prems by simp
  show ?case
  proof (cases "Suc i = r")
    case True
    then have "r - 1 = i" by simp
    with True a show ?thesis by (simp add: loop_last)
  next
    case False
    with Suc.prems have lt: "Suc i < r" by simp
    have d: "d = r - Suc i" using Suc.hyps(2) by simp
    have ih: "makeRequest_loop pw cfg nw r b (Suc i) =
       (None, concat (map (\<lambda>j. [Attempt j, Wait (backoff_timer pw b j)]) [Suc i..<r-1]) @ [Attempt (r-1)])"
      using Suc.hyps(1)[OF d lt] Suc.prems(2) by simp
    have up: "[i..<r - Suc 0] = i # [Suc i..<r - Suc 0]" using lt by (simp add: upt_conv_Cons)
    show ?thesis using lt a by (simp add: loop_500_step ih up)
  qed
qed

lemma loop_all_other:
  "i < r \<Longrightarrow> \<forall>j. i \<le> j \<and> j < r \<longrightarrow> (\<exists>st. axios cfg (nw j) = Rejected st \<and> st \<noteq> Some 500) \<Longrightarrow>
   makeRequest_loop pw cfg nw r b i =
     (None, concat (map (\<lambda>j. [Attempt j, Wait (Fin 2000)]) [i..<r-1]) @ [Attempt (r-1)])"
proof (induction "r - i" arbitrary: i)
  case 0
  then show ?case by simp
next
  case (Suc d)
  obtain st where a: "axios cfg (nw i) = Rejected st" "st \<noteq> Some 500" using Suc.prems by auto
  show ?case
  proof (cases "Suc i = r")
    case True
    then have "r - 1 = i" by simp
    with True a show ?thesis by (simp add: loop_last)
  next
    case False
    with Suc.prems have lt: "Suc i < r" by simp
    have d: "d = r - Suc i" using Suc.hyps(2) by simp
    have ih: "makeRequest_loop pw cfg nw r b (Suc i) =
       (None, concat (map (\<lambda>j. [Attempt j, Wait (Fin 2000)]) [Suc i..<r-1]) @ [Attempt (r-1)])"
      using Suc.hyps(1)[OF d lt] Suc.prems(2) by simp
    have up: "[i..<r - Suc 0] = i # [Suc i..<r - Suc 0]" using lt by (simp add: upt_conv_Cons)
    show ?thesis using lt a by (simp add: loop_other_step ih up)
  qed
qed

lemma loop_positions:
  "(2 * k < length (snd (makeRequest_loop pw cfg nw r b i)) \<longrightarrow>
      snd (makeRequest_loop pw cfg nw r b i) ! (2 * k) = Attempt (i + k)) \<and>
   (2 * k + 1 < length (snd (makeRequest_loop pw cfg nw r b i)) \<longrightarrow>
      snd (makeRequest_loop pw cfg nw r b i) ! (2 * k + 1) =
        Wait (if axios cfg (nw (i + k)) = Rejected (Some 500) then backoff_timer pw b (i + k) else Fin 2000))"
proof (induction "r - i" arbitrary: i k)
  case 0
  then show ?case by (simp add: loop_done)
next
  case (Suc d)
  then have ir: "i < r" by simp
  show ?case
  proof (cases "axios cfg (nw i)")
    case (Resolved resp)
    then show ?thesis using ir by (simp add: loop_resolved)
  next
    case (Rejected st)
    show ?thesis
    proof (cases "Suc i = r")
      case True
      then show ?thesis using Rejected by (simp add: loop_last)
    next
      case False
      with ir have lt: "Suc i < r" by simp
      have d: "d = r - Suc i" using Suc.hyps(2) by simp
      note ih = Suc.hyps(1)[OF d]
      show ?thesis
      proof (cases k)
        case 0
        then show ?thesis using Rejected lt
          by (cases "st = Some 500") (simp_all add: loop_500_step loop_other_step)
      next
        case (Suc k')
        then show ?thesis using Rejected lt ih[of k']
          by (cases "st = Some 500") (simp_all add: loop_500_step loop_other_step)
      qed
    qed
  qed
qed

lemma attempts_pairs:
  "attempts (concat (map (\<lambda>j. [Attempt j, Wait (f j)]) js) @ [Attempt n]) = js @ [n]"
  by (induction js) simp_all

lemma waits_pairs:
  "waits (concat (map (\<lambda>j. [Attempt j, Wait (f j)]) js) @ [Attempt n]) = map f js"
  by (induction js) simp_all

lemma loop_attempts_le: "length (attempts (snd (makeRequest_loop pw cfg nw r b i))) \<le> r - i"
proof (induction "r - i" arbitrary: i)
  case 0
  then show ?case by (simp add: loop_done)
next
  case (Suc d)
  then have ir: "i < r" by simp
  show ?case
  proof (cases "axios cfg (nw i)")
    case (Resolved resp)
    then show ?thesis using ir by (simp add: loop_resolved)
  next
    case (Rejected st)
    show ?thesis
    proof (cases "Suc i = r")
      case True
      then show ?thesis using Rejected by (simp add: loop_last)
    next
      case False
      with ir have lt: "Suc i < r" by simp
      have d: "d = r - Suc i" using Suc.hyps(2) by simp
      from Suc.hyps(1)[OF d] show ?thesis using Rejected lt
        by (cases "st = Some 500") (simp_all add: loop_500_step loop_other_step)
    qed
  qed
qed

lemma loop_all_rejected_null:
  "\<forall>j. i \<le> j \<and> j < r \<longrightarrow> (\<exists>st. axios cfg (nw j) = Rejected st) \<Longrightarrow>
   fst (makeRequest_loop pw cfg nw r b i) = None"
proof (induction "r - i" arbitrary: i)
  case 0
  then show ?case by (simp add: loop_done)
next
  case (Suc d)
  then have ir: "i < r" by simp
  obtain st where a: "axios cfg (nw i) = Rejected st" using Suc.prems ir by auto
  show ?case
  proof (cases "Suc i = r")
    case True
    then show ?thesis using a by (simp add: loop_last)
  next
    case False
    with ir have lt: "Suc i < r" by simp
    have d: "d = r - Suc i" using Suc.hyps(2) by simp
    have "fst (makeRequest_loop pw cfg nw r b (Suc i)) = None"
      using Suc.hyps(1)[OF d] Suc.prems by simp
    then show ?thesis using a lt
      by (cases "st = Some 500") (simp_all add: loop_500_step loop_other_step)
  qed
qed

lemma loop_resolved_ends:
  "Attempt k \<in> set (snd (makeRequest_loop pw cfg nw r b i)) \<Longrightarrow> axios cfg (nw k) = Resolved resp \<Longrightarrow>
   fst (makeRequest_loop pw cfg nw r b i) = Some resp \<and>
   last (snd (makeRequest_loop pw cfg nw r b i)) = Attempt k"
proof (induction "r - i" arbitrary: i)
  case 0
  then show ?case by (simp add: loop_done)
next
  case (Suc d)
  then have ir: "i < r" by simp
  show ?case
  proof (cases "axios cfg (nw i)")
    case (Resolved resp')
    then show ?thesis using ir Suc.prems by (simp add: loop_resolved)
  next
    case (Rejected st)
    show ?thesis
    proof (cases "Suc i = r")
      case True
      then show ?thesis using Rejected Suc.prems by (auto simp add: loop_last)
    next
      case False
      with ir have lt: "Suc i < r" by simp
      have d: "d = r - Suc i" using Suc.hyps(2) by simp
      have ne: "k \<noteq> i" using Rejected Suc.prems(2) by auto
      have mem: "Attempt k \<in> set (snd (makeRequest_loop pw cfg nw r b (Suc i)))"
        using Suc.prems(1) Rejected lt ne
        by (cases "st = Some 500") (simp_all add: loop_500_step loop_other_step)
      have ne2: "snd (makeRequest_loop pw cfg nw r b (Suc i)) \<noteq> []" using mem by auto
      from Suc.hyps(1)[OF d mem Suc.prems(2)] show ?thesis using Rejected lt ne2
        by (cases "st = Some 500") (simp_all add: loop_500_step loop_other_step)
    qed
  qed
qed

lemma loop_cfg_indep:
  "(\<And>x. axios cfg x = axios cfg' x) \<Longrightarrow>
   makeRequest_loop pw cfg nw r b i = makeRequest_loop pw cfg' nw r b i"
proof (induction "r - i" arbitrary: i)
  case 0
  then show ?case by (simp add: loop_done)
next
  case (Suc d)
  then have ir: "i < r" by simp
  have same: "axios cfg' (nw i) = axios cfg (nw i)" using Suc.prems by simp
  show ?case
  proof (cases "axios cfg (nw i)")
    case (Resolved resp)
    then show ?thesis using ir same by (simp add: loop_resolved)
  next
    case (Rejected st)
    show ?thesis
    proof (cases "Suc i = r")
      case True
      then show ?thesis using Rejected same by (simp add: loop_last)
    next
      case False
      with ir have lt: "Suc i < r" by simp
      have d: "d = r - Suc i" using Suc.hyps(2) by simp
      have ih: "makeRequest_loop pw cfg nw r b (Suc i) = makeRequest_loop pw cfg' nw r b (Suc i)"
        using Suc.hyps(1)[OF d] Suc.prems by simp
      show ?thesis using Rejected same lt ih
        by (cases "st = Some 500") (simp_all add: loop_500_step loop_other_step)
    qed
  qed
qed

section \<open>The session and its operations\<close>

lemma session_axios:
  "LayerEdgeConnection lb prx key code = Inr c \<Longrightarrow>
   axios ((axiosConfig c)\<lparr> method := m, url := u \<rparr>) (Reply resp) =
     (if status resp < 500 then Resolved resp else Rejected (Some (status resp)))"
  by (auto simp: LayerEdgeConnection_def bind_exn_def axios_def split: option.splits sum.splits)

lemma session_retryCount:
  "LayerEdgeConnection lb prx key code = Inr c \<Longrightarrow> retryCount c = 2"
  by (auto simp: LayerEdgeConnection_def bind_exn_def split: option.splits sum.splits)

lemma connection_makeRequest_indep:
  "connection_makeRequest pw c m u nw = connection_makeRequest pw c m' u' nw"
  unfolding connection_makeRequest_def makeRequest_def
  by (rule loop_cfg_indep) (simp add: axios_def split: reply.splits)

lemma dailyCheckIn_returns: "\<exists>b. dailyCheckIn pw c nw = Inr (JBool b)"
  by (auto simp add: dailyCheckIn_def Let_def split: option.splits)

lemma stopNode_returns: "\<exists>b. stopNode pw c nw = Inr (JBool b)"
  by (auto simp add: stopNode_def Let_def split: option.splits)

lemma checkInvite_returns: "\<exists>b. checkInvite pw c nw = Inr (JBool b)"
  by (auto simp add: checkInvite_def Let_def split: option.splits)

lemma get_prop_truthy: "truthy v \<Longrightarrow> \<exists>x. get_prop v k = Inr x"
  by (cases v) simp_all

lemma get_prop_truthy_opt: "truthy v \<Longrightarrow> get_prop v k = Inr (get_prop_opt v k)"
  by (cases v) simp_all

lemma connectNode_returns: "\<exists>b. connectNode pw c nw = Inr (JBool b)"
  by (auto simp add: connectNode_def Let_def bind_exn_def get_prop_truthy_opt split: option.splits)

lemma logger_log_result: "logger_log v e = Inr () \<or> logger_log v e = Inl TypeError"
  by (simp add: logger_log_def chalk_def bind_exn_def)

lemma registerWallet_values:
  "registerWallet pw c nw = Inr v \<Longrightarrow> v = JBool True \<or> v = JBool False"
  by (auto simp add: registerWallet_def Let_def bind_exn_def
      split: option.splits if_splits sum.splits)

lemma isWalletRegistered_values:
  "isWalletRegistered pw c nw = Inr v \<Longrightarrow> v = JBool True \<or> v = JBool False \<or> v = JNull"
  by (auto simp add: isWalletRegistered_def Let_def bind_exn_def
      split: option.splits if_splits sum.splits)

lemma checkNodeStatus_values:
  "checkNodeStatus pw c nw = Inr v \<Longrightarrow> v = JBool True \<or> v = JBool False"
  by (auto simp add: checkNodeStatus_def Let_def bind_exn_def split: option.splits if_splits sum.splits)

section \<open>The order of the operations in a workflow\<close>

lemma try_unfold:
  assumes "LayerEdgeConnection (lib e) (wproxy w) (privateKey w) (wrefCode w) = Inr c"
  shows "processWallet_try e w =
     seq (call IsWalletRegistered (isWalletRegistered (Math_pow e) c (net e IsWalletRegistered))) (\<lambda>isRegistered.
     seq (if isRegistered = JBool False then
            seq (call CheckInvite (checkInvite (Math_pow e) c (net e CheckInvite))) (\<lambda>isValidInvite.
              if \<not> truthy isValidInvite then ([], Return)
              else
                seq (call RegisterWallet (registerWallet (Math_pow e) c (net e RegisterWallet))) (\<lambda>registered.
                  if \<not> truthy registered then ([], Return) else ([], Next ())))
          else ([], Next ())) (\<lambda>_. from_attestation c e))"
  unfolding processWallet_try_def from_attestation_def using assms by (simp add: seq_def)

lemma from_attestation_trace:
  "fst (from_attestation c e) =
     (case checkNodeStatus (Math_pow e) c (net e CheckNodeStatus) of
        Inl x \<Rightarrow> [DailyCheckIn, CheckNodeStatus]
      | Inr v \<Rightarrow> if truthy v then [DailyCheckIn, CheckNodeStatus, StopNode, ConnectNode, CheckNodePoints]
                 else [DailyCheckIn, CheckNodeStatus, ConnectNode, CheckNodePoints])"
proof -
  obtain b1 where d: "dailyCheckIn (Math_pow e) c (net e DailyCheckIn) = Inr (JBool b1)"
    using dailyCheckIn_returns by blast
  obtain b2 where s: "stopNode (Math_pow e) c (net e StopNode) = Inr (JBool b2)"
    using stopNode_returns by blast
  obtain b3 where n: "connectNode (Math_pow e) c (net e ConnectNode) = Inr (JBool b3)"
    using connectNode_returns by blast
  show ?thesis
    by (cases "checkNodePoints (Math_pow e) c (net e CheckNodePoints)")
       (simp_all add: from_attestation_def seq_def call_def d s n split: sum.splits)
qed

lemma from_attestation_result:
  "snd (from_attestation c e) =
     (case checkNodeStatus (Math_pow e) c (net e CheckNodeStatus) of
        Inl x \<Rightarrow> Throw x
      | Inr v \<Rightarrow> (case checkNodePoints (Math_pow e) c (net e CheckNodePoints) of
                   Inl x \<Rightarrow> Throw x | Inr p \<Rightarrow> Next p))"
proof -
  obtain b1 where d: "dailyCheckIn (Math_pow e) c (net e DailyCheckIn) = Inr (JBool b1)"
    using dailyCheckIn_returns by blast
  obtain b2 where s: "stopNode (Math_pow e) c (net e StopNode) = Inr (JBool b2)"
    using stopNode_returns by blast
  obtain b3 where n: "connectNode (Math_pow e) c (net e ConnectNode) = Inr (JBool b3)"
    using connectNode_returns by blast
  show ?thesis
    by (cases "checkNodePoints (Math_pow e) c (net e CheckNodePoints)")
       (simp_all add: from_attestation_def seq_def call_def d s n split: sum.splits)
qed

lemma try_trace:
  assumes "LayerEdgeConnection (lib e) (wproxy w) (privateKey w) (wrefCode w) = Inr c"
  shows "fst (processWallet_try e w) =
     (case isWalletRegistered (Math_pow e) c (net e IsWalletRegistered) of
        Inl x \<Rightarrow> [IsWalletRegistered]
      | Inr v \<Rightarrow>
          if v = JBool False then
            (if checkInvite (Math_pow e) c (net e CheckInvite) = Inr (JBool True) then
               (if registerWallet (Math_pow e) c (net e RegisterWallet) = Inr (JBool True) then
                  [IsWalletRegistered, CheckInvite, RegisterWallet] @ fst (from_attestation c e)
                else [IsWalletRegistered, CheckInvite, RegisterWallet])
             else [IsWalletRegistered, CheckInvite])
          else IsWalletRegistered # fst (from_attestation c e))"
proof -
  obtain b1 where i: "checkInvite (Math_pow e) c (net e CheckInvite) = Inr (JBool b1)"
    using checkInvite_returns by blast
  show ?thesis
  proof (cases "registerWallet (Math_pow e) c (net e RegisterWallet)")
    case (Inl x)
    then show ?thesis
      by (simp add: try_unfold[OF assms] seq_def call_def i split: sum.splits)
  next
    case (Inr v)
    then obtain b2 where "v = JBool b2" using registerWallet_values by blast
    with Inr show ?thesis
      by (simp add: try_unfold[OF assms] seq_def call_def i split: sum.splits)
  qed
qed

lemma try_result:
  assumes "LayerEdgeConnection (lib e) (wproxy w) (privateKey w) (wrefCode w) = Inr c"
  shows "snd (processWallet_try e w) =
     (case isWalletRegistered (Math_pow e) c (net e IsWalletRegistered) of
        Inl x \<Rightarrow> Throw x
      | Inr v \<Rightarrow>
          if v = JBool False then
            (if checkInvite (Math_pow e) c (net e CheckInvite) = Inr (JBool True) then
               (case registerWallet (Math_pow e) c (net e RegisterWallet) of
                  Inl x \<Rightarrow> Throw x
                | Inr g \<Rightarrow> if g = JBool True then snd (from_attestation c e) else Return)
             else Return)
          else snd (from_attestation c e))"
proof -
  obtain b1 where i: "checkInvite (Math_pow e) c (net e CheckInvite) = Inr (JBool b1)"
    using checkInvite_returns by blast
  show ?thesis
  proof (cases "registerWallet (Math_pow e) c (net e RegisterWallet)")
    case (Inl x)
    then show ?thesis
      by (simp add: try_unfold[OF assms] seq_def call_def i split: sum.splits)
  next
    case (Inr v)
    then obtain b2 where "v = JBool b2" using registerWallet_values by blast
    with Inr show ?thesis
      by (simp add: try_unfold[OF assms] seq_def call_def i split: sum.splits)
  qed
qed

lemma processWallet_parts:
  "processWallet e w st = (own_wallet e w, count_ending st (own_ending e w), own_ending e w)"
  by (simp add: processWallet_def own_wallet_def own_ending_def split: ctl.splits)

lemma own_ending_caught:
  "own_ending e w = Caught x \<longleftrightarrow> snd (processWallet_try e w) = Throw x"
  by (simp add: processWallet_def own_ending_def split: ctl.splits)

lemma own_ending_of_try:
  "own_ending e w =
     (case snd (processWallet_try e w) of
        Next p \<Rightarrow> Completed | Return \<Rightarrow> ReturnedEarly | Throw x \<Rightarrow> Caught x)"
  by (simp add: own_ending_def processWallet_def split: ctl.splits)

lemma own_wallet_of_try:
  "own_wallet e w =
     (case snd (processWallet_try e w) of
        Next p \<Rightarrow> w\<lparr> point := p \<rparr> | Return \<Rightarrow> w | Throw x \<Rightarrow> w)"
  by (simp add: own_wallet_def processWallet_def split: ctl.splits)

section \<open>The batch loop in closed form\<close>

lemma count_failed:
  "failed (foldl count_ending st es) = failed st + length (filter is_caught es)"
proof (induction es arbitrary: st)
  case Nil
  then show ?case by simp
next
  case (Cons x xs)
  then show ?case by (cases x) simp_all
qed

lemma count_success:
  "success (foldl count_ending st es) = success st + length (filter (\<lambda>x. x = Completed) es)"
proof (induction es arbitrary: st)
  case Nil
  then show ?case by simp
next
  case (Cons x xs)
  then show ?case by (cases x) simp_all
qed

lemma map_untouched:
  "map (\<lambda>k. if a \<le> k \<and> k < a then f k else ws ! k) [0..<length ws] = ws"
  by (intro nth_equalityI) auto

lemma fold_settle:
  "a \<le> b \<Longrightarrow> b \<le> length ws \<Longrightarrow>
   foldl (settle envs) (ws, st, lg) [a..<b] =
     (map (\<lambda>k. if a \<le> k \<and> k < b then own_wallet (envs k) (ws ! k) else ws ! k) [0..<length ws],
      foldl count_ending st (map (\<lambda>k. own_ending (envs k) (ws ! k)) [a..<b]),
      lg @ map (\<lambda>k. (k, own_ending (envs k) (ws ! k))) [a..<b])"
proof (induction b)
  case 0
  then show ?case using map_untouched[of 0 _ ws] by simp
next
  case (Suc b)
  show ?case
  proof (cases "a = Suc b")
    case True
    then show ?thesis using map_untouched[of "Suc b" _ ws] by simp
  next
    case False
    with Suc.prems have ab: "a \<le> b" and bl: "b < length ws" by simp_all
    have ih: "foldl (settle envs) (ws, st, lg) [a..<b] =
     (map (\<lambda>k. if a \<le> k \<and> k < b then own_wallet (envs k) (ws ! k) else ws ! k) [0..<length ws],
      foldl count_ending st (map (\<lambda>k. own_ending (envs k) (ws ! k)) [a..<b]),
      lg @ map (\<lambda>k. (k, own_ending (envs k) (ws ! k))) [a..<b])"
      using Suc.IH ab bl by simp
    have upd: "(map (\<lambda>k. if a \<le> k \<and> k < b then own_wallet (envs k) (ws ! k) else ws ! k) [0..<length ws])
                 [b := own_wallet (envs b) (ws ! b)] =
               map (\<lambda>k. if a \<le> k \<and> k < Suc b then own_wallet (envs k) (ws ! k) else ws ! k) [0..<length ws]"
      using ab bl by (intro nth_equalityI) (auto simp: nth_list_update less_Suc_eq)
    have "foldl (settle envs) (ws, st, lg) [a..<Suc b] =
            settle envs (foldl (settle envs) (ws, st, lg) [a..<b]) b"
      using ab by simp
    also have "\<dots> = settle envs
       (map (\<lambda>k. if a \<le> k \<and> k < b then own_wallet (envs k) (ws ! k) else ws ! k) [0..<length ws],
        foldl count_ending st (map (\<lambda>k. own_ending (envs k) (ws ! k)) [a..<b]),
        lg @ map (\<lambda>k. (k, own_ending (envs k) (ws ! k))) [a..<b]) b"
      by (simp only: ih)
    also have "\<dots> =
       (map (\<lambda>k. if a \<le> k \<and> k < Suc b then own_wallet (envs k) (ws ! k) else ws ! k) [0..<length ws],
        foldl count_ending st (map (\<lambda>k. own_ending (envs k) (ws ! k)) [a..<Suc b]),
        lg @ map (\<lambda>k. (k, own_ending (envs k) (ws ! k))) [a..<Suc b])"
      using ab bl by (simp add: settle_def processWallet_parts upd)
    finally show ?thesis .
  qed
qed

lemma allSettled_after_batches:
  assumes "g * B < length ws"
  shows "allSettled envs (g * B) B (after_batches envs ws B g) = after_batches envs ws B (Suc g)"
proof -
  let ?N = "length ws"
  let ?W = "map (\<lambda>k. if k < g * B then own_wallet (envs k) (ws ! k) else ws ! k) [0..<?N]"
  let ?a = "g * B"
  let ?b = "min (g * B + B) ?N"
  let ?z = "\<lparr> success = 0, failed = 0 \<rparr>"
  have ab: "?a \<le> ?b" using assms by simp
  have bl: "?b \<le> length ?W" by simp
  have same: "?W ! k = ws ! k" if "?a \<le> k" "k < ?N" for k
    using that by simp
  have ends: "map (\<lambda>k. own_ending (envs k) (?W ! k)) [?a..<?b] =
              map (\<lambda>k. own_ending (envs k) (ws ! k)) [?a..<?b]"
    by (rule map_cong) (auto simp: same)
  have logs: "map (\<lambda>k. (k, own_ending (envs k) (?W ! k))) [?a..<?b] =
              map (\<lambda>k. (k, own_ending (envs k) (ws ! k))) [?a..<?b]"
    by (rule map_cong) (auto simp: same)
  have ws': "map (\<lambda>k. if ?a \<le> k \<and> k < ?b then own_wallet (envs k) (?W ! k) else ?W ! k) [0..<length ?W] =
             map (\<lambda>k. if k < Suc g * B then own_wallet (envs k) (ws ! k) else ws ! k) [0..<?N]"
    by (intro nth_equalityI) auto
  have cat: "[0..<min (g * B) ?N] @ [?a..<?b] = [0..<min (Suc g * B) ?N]"
  proof -
    have "min (g * B) ?N = ?a" using assms by simp
    moreover have "[0..<?a] @ [?a..<?b] = [0..<?b]"
      using ab by (metis le0 upt_add_eq_append le_add_diff_inverse)
    moreover have "?b = min (Suc g * B) ?N" by (simp add: add.commute)
    ultimately show ?thesis by simp
  qed
  have cnt: "foldl count_ending (foldl count_ending ?z
                (map (\<lambda>k. own_ending (envs k) (ws ! k)) [0..<min (g * B) ?N]))
                (map (\<lambda>k. own_ending (envs k) (ws ! k)) [?a..<?b]) =
             foldl count_ending ?z (map (\<lambda>k. own_ending (envs k) (ws ! k)) [0..<min (Suc g * B) ?N])"
    by (simp only: foldl_append[symmetric] map_append[symmetric] cat)
  have f: "foldl (settle envs) (?W, counters (after_batches envs ws B g), []) [?a..<?b] =
     (map (\<lambda>k. if k < Suc g * B then own_wallet (envs k) (ws ! k) else ws ! k) [0..<?N],
      foldl count_ending ?z (map (\<lambda>k. own_ending (envs k) (ws ! k)) [0..<min (Suc g * B) ?N]),
      map (\<lambda>k. (k, own_ending (envs k) (ws ! k))) [?a..<?b])"
    by (simp only: fold_settle[OF ab bl] ends logs ws' append_Nil after_batches_def
        run.simps cnt)
  have wl: "wallets (after_batches envs ws B g) = ?W" by (simp add: after_batches_def)
  have ln: "length (wallets (after_batches envs ws B g)) = ?N" by (simp add: after_batches_def)
  have f': "foldl (settle envs)
              (wallets (after_batches envs ws B g), counters (after_batches envs ws B g), [])
              [?a..<min (?a + B) (length (wallets (after_batches envs ws B g)))] =
     (map (\<lambda>k. if k < Suc g * B then own_wallet (envs k) (ws ! k) else ws ! k) [0..<?N],
      foldl count_ending ?z (map (\<lambda>k. own_ending (envs k) (ws ! k)) [0..<min (Suc g * B) ?N]),
      map (\<lambda>k. (k, own_ending (envs k) (ws ! k))) [?a..<?b])"
    by (simp only: wl length_map length_upt diff_zero f)
  show ?thesis
    by (simp only: allSettled_def f') (simp add: after_batches_def)
qed

lemma ceil_less: "0 < B \<Longrightarrow> g < (N + B - 1) div B \<longleftrightarrow> g * B < (N::nat)"
proof -
  assume B: "0 < B"
  have "g < (N + B - 1) div B \<longleftrightarrow> Suc g \<le> (N + B - 1) div B" by auto
  also have "\<dots> \<longleftrightarrow> Suc g * B \<le> N + B - 1" using B by (simp add: less_eq_div_iff_mult_less_eq)
  also have "\<dots> \<longleftrightarrow> g * B < N" using B by auto
  finally show ?thesis .
qed

lemma chunks_concat:
  "0 < B \<Longrightarrow> concat (map (\<lambda>j. [j * B..<min (j * B + B) N]) [0..<g]) = [0..<min (g * B) N]"
proof (induction g)
  case 0
  then show ?case by simp
next
  case (Suc g)
  have "[0..<min (g * B) N] @ [g * B..<min (g * B + B) N] = [0..<min (Suc g * B) N]"
  proof (cases "g * B < N")
    case True
    then have "min (g * B) N = g * B" by simp
    moreover have "[0..<g * B] @ [g * B..<min (g * B + B) N] = [0..<min (g * B + B) N]"
      using True by (metis le0 upt_add_eq_append le_add_diff_inverse min.bounded_iff le_add1 less_imp_le)
    ultimately show ?thesis by (simp add: add.commute)
  next
    case False
    then show ?thesis by (simp add: min_def)
  qed
  with Suc show ?case by simp
qed

lemma ceil_div:
  assumes B: "0 < B"
  shows "nat \<lceil>real N / real B\<rceil> = (N + B - 1) div B"
proof -
  let ?G = "(N + B - 1) div B"
  have up: "N \<le> ?G * B" using ceil_less[OF B, of ?G N] by simp
  have lo: "real ?G - 1 < real N / real B"
  proof (cases "?G = 0")
    case True
    have "(0::real) \<le> real N / real B" by simp
    then show ?thesis using True by linarith
  next
    case False
    then have "(?G - 1) * B < N" using ceil_less[OF B, of "?G - 1" N] by simp
    then have "real ((?G - 1) * B) < real N" by (rule iffD2[OF of_nat_less_iff])
    then have "(real ?G - 1) * real B < real N" using False by (simp add: of_nat_diff)
    then show ?thesis using B by (simp add: pos_less_divide_eq)
  qed
  have "real N \<le> real (?G * B)" using up by (rule iffD2[OF of_nat_le_iff])
  then have hi: "real N / real B \<le> real ?G" using B by (simp add: pos_divide_le_eq)
  have "\<lceil>real N / real B\<rceil> = int ?G"
    using lo hi by (intro ceiling_unique) simp_all
  then show ?thesis by simp
qed

lemma after_batches_0:
  "after_batches envs ws B 0 = \<lparr> wallets = ws, counters = \<lparr> success = 0, failed = 0 \<rparr>, batches = [] \<rparr>"
  by (simp add: after_batches_def map_nth)

lemma batches_loop_closed:
  assumes B: "0 < B"
  shows "g \<le> (length ws + B - 1) div B \<Longrightarrow>
    batches_loop envs (length ws) B (g * B) (after_batches envs ws B g) =
      Some (after_batches envs ws B ((length ws + B - 1) div B))"
proof (induction "(length ws + B - 1) div B - g" arbitrary: g)
  case 0
  then have g: "g = (length ws + B - 1) div B" by simp
  have "\<not> g * B < length ws" using ceil_less[OF B, of g "length ws"] g by simp
  then show ?case by (subst batches_loop.simps) (simp add: g)
next
  case (Suc d)
  then have lt: "g < (length ws + B - 1) div B" by simp
  then have run: "g * B < length ws" using ceil_less[OF B, of g "length ws"] by simp
  have d: "d = (length ws + B - 1) div B - Suc g" using Suc.hyps(2) by simp
  have le: "Suc g \<le> (length ws + B - 1) div B" using lt by simp
  have nxt: "g * B + B = Suc g * B" by simp
  show ?case
    by (subst batches_loop.simps)
       (simp only: run if_True allSettled_after_batches[OF run] nxt Suc.hyps(1)[OF d le])
qed

lemma processWalletsInBatches_closed:
  "0 < B \<Longrightarrow> processWalletsInBatches envs ws B =
     Some (after_batches envs ws B ((length ws + B - 1) div B))"
  using batches_loop_closed[of B 0 ws envs]
  by (simp add: processWalletsInBatches_def after_batches_0)

text \<open>
  With a batch size of 0 and an account to process, the loop never returns.
\<close>

lemma batches_loop_zero_never_returns:
  assumes "batches_loop envs n B i r = Some y"
  shows "0 < B \<or> n \<le> i"
proof (rule batches_loop.raw_induct[where P = "\<lambda>envs n B i r y. 0 < B \<or> n \<le> i", OF _ assms])
  fix f :: "(nat \<Rightarrow> env) \<Rightarrow> nat \<Rightarrow> nat \<Rightarrow> nat \<Rightarrow> run \<Rightarrow> run option"
    and envs' n' B' i' r' y'
  assume ih: "\<And>e n B i r y. f e n B i r = Some y \<Longrightarrow> 0 < B \<or> n \<le> i"
    and eq: "(if i' < n' then f envs' n' B' (i' + B') (allSettled envs' i' B' r') else Some r') = Some y'"
  show "0 < B' \<or> n' \<le> i'"
  proof (cases "i' < n'")
    case True
    with eq have "f envs' n' B' (i' + B') (allSettled envs' i' B' r') = Some y'" by simp
    from ih[OF this] True show ?thesis by (cases "B' = 0") auto
  next
    case False
    then show ?thesis by simp
  qed
qed

lemma batch_size_zero_diverges:
  "ws \<noteq> [] \<Longrightarrow> processWalletsInBatches envs ws 0 = None"
proof (rule ccontr)
  assume ne: "ws \<noteq> []" and "processWalletsInBatches envs ws 0 \<noteq> None"
  then obtain y where "processWalletsInBatches envs ws 0 = Some y" by auto
  then have "(0::nat) < 0 \<or> length ws \<le> 0"
    unfolding processWalletsInBatches_def by (rule batches_loop_zero_never_returns)
  with ne show False by simp
qed

section \<open>The examples, evaluated\<close>

lemma demo_connection_built:
  "LayerEdgeConnection demo_lib None ''key'' ''ref'' = Inr demo_connection"
  by (simp add: LayerEdgeConnection_def bind_exn_def demo_lib_def demo_Wallet_def
      demo_connection_def newAgent_def)

lemma demo_wallet_session:
  "LayerEdgeConnection demo_lib (wproxy demo_wallet) (privateKey demo_wallet) (wrefCode demo_wallet)
     = Inr demo_connection"
  by (simp add: demo_wallet_def demo_connection_built)

lemma default_backoff_demo:
  "i \<le> 29 \<Longrightarrow> backoff_timer demo_pow (Fin 2000) i = Fin (2000 * (3 / 2) ^ i)"
  by (intro backoff_timer_exact demo_pow_exact default_backoff_representable) simp_all

lemma flaky_then_fault_trace:
  "makeRequest demo_pow demo_config None None flaky_then_fault =
     (Some \<lparr> status = 200, data = JNull \<rparr>,
      [Attempt 0, Wait (Fin 2000), Attempt 1, Wait (Fin 3000), Attempt 2])"
proof -
  have a0: "axios demo_config (flaky_then_fault 0) = Rejected None"
    by (simp add: flaky_then_fault_def script_def axios_def)
  have a1: "axios demo_config (flaky_then_fault (Suc 0)) = Rejected (Some 500)"
    by (simp add: flaky_then_fault_def script_def axios_def demo_config_def)
  have a2: "axios demo_config (flaky_then_fault (Suc (Suc 0))) = Resolved \<lparr> status = 200, data = JNull \<rparr>"
    by (simp add: flaky_then_fault_def script_def axios_def demo_config_def)
  have w: "backoff_timer demo_pow (Fin 2000) (Suc 0) = Fin 3000"
    using default_backoff_demo[of "Suc 0"] by simp
  have s0: "makeRequest_loop demo_pow demo_config flaky_then_fault 3 (Fin 2000) 0 =
      (fst (makeRequest_loop demo_pow demo_config flaky_then_fault 3 (Fin 2000) (Suc 0)),
       Attempt 0 # Wait (Fin 2000) #
       snd (makeRequest_loop demo_pow demo_config flaky_then_fault 3 (Fin 2000) (Suc 0)))"
    using a0 by (intro loop_other_step[where st = None]) simp_all
  have s1: "makeRequest_loop demo_pow demo_config flaky_then_fault 3 (Fin 2000) (Suc 0) =
      (fst (makeRequest_loop demo_pow demo_config flaky_then_fault 3 (Fin 2000) (Suc (Suc 0))),
       Attempt (Suc 0) # Wait (Fin 3000) #
       snd (makeRequest_loop demo_pow demo_config flaky_then_fault 3 (Fin 2000) (Suc (Suc 0))))"
    using a1 loop_500_step[of "Suc 0" 3 demo_config flaky_then_fault demo_pow "Fin 2000"]
    by (simp add: w)
  have s2: "makeRequest_loop demo_pow demo_config flaky_then_fault 3 (Fin 2000) (Suc (Suc 0)) =
      (Some \<lparr> status = 200, data = JNull \<rparr>, [Attempt (Suc (Suc 0))])"
    using a2 by (intro loop_resolved) simp_all
  show ?thesis
    unfolding makeRequest_def by (simp add: s0 s1 s2 numeral_2_eq_2)
qed

lemmas request_eval =
  connection_makeRequest_def makeRequest_def makeRequest_loop.simps axios_def delay_two
  demo_connection_def answers_def always_def

lemmas operation_eval =
  isWalletRegistered_def checkInvite_def registerWallet_def dailyCheckIn_def checkNodeStatus_def
  stopNode_def connectNode_def checkNodePoints_def bind_exn_def js_or_def logger_log_def chalk_def

lemmas workflow_eval =
  processWallet_try_def seq_def call_def LayerEdgeConnection_def demo_lib_def demo_Wallet_def
  newAgent_def demo_wallet_def keyless_wallet_def

lemma try_newcomer:
  "processWallet_try env_newcomer demo_wallet =
     ([IsWalletRegistered, CheckInvite, RegisterWallet, DailyCheckIn, CheckNodeStatus, ConnectNode,
       CheckNodePoints], Next (JNum 0))"
  by (simp add: env_newcomer_def workflow_eval operation_eval request_eval)

lemma try_running:
  "processWallet_try env_running demo_wallet =
     ([IsWalletRegistered, DailyCheckIn, CheckNodeStatus, StopNode, ConnectNode, CheckNodePoints],
      Next (JNum 1250))"
  by (simp add: env_running_def workflow_eval operation_eval request_eval)

lemma try_offline:
  "processWallet_try env_offline demo_wallet =
     ([IsWalletRegistered, DailyCheckIn, CheckNodeStatus, ConnectNode, CheckNodePoints], Next JNull)"
  by (simp add: env_offline_def workflow_eval operation_eval request_eval)

lemma try_bad_invite:
  "processWallet_try env_bad_invite demo_wallet = ([IsWalletRegistered, CheckInvite], Return)"
  by (simp add: env_bad_invite_def workflow_eval operation_eval request_eval)

lemma try_status_error:
  "processWallet_try env_status_error demo_wallet =
     ([IsWalletRegistered, DailyCheckIn, CheckNodeStatus], Throw TypeError)"
  by (simp add: env_status_error_def workflow_eval operation_eval request_eval)

lemma try_keyless:
  "processWallet_try env_running keyless_wallet = ([], Throw ConstructError)"
  by (simp add: env_running_def workflow_eval operation_eval request_eval)

section \<open>The claims\<close>

subsection \<open>C1: the counters after a run\<close>

text \<open>
  C1 says that after a run \<open>success + failed\<close> equals the number of accounts, an
  account that aborts early on an invalid referral code or a rejected registration
  being counted as failed. The two \<^verbatim>\<open>return\<close> statements of the registration
  branch leave \<^verbatim>\<open>processWallet\<close> without touching either counter. Here are three
  accounts in one batch: the first completes, the second has its referral code
  rejected, the third has a key the signing library refuses. The run ends with
  \<open>success = 1\<close> and \<open>failed = 1\<close>: the second account is counted nowhere.
\<close>

theorem early_return_counted_nowhere:
  "processWalletsInBatches (pick [env_running, env_bad_invite, env_running])
       [demo_wallet, demo_wallet, keyless_wallet] 10 =
     Some \<lparr> wallets = [demo_wallet\<lparr> point := JNum 1250 \<rparr>, demo_wallet, keyless_wallet],
            counters = \<lparr> success = 1, failed = 1 \<rparr>,
            batches = [[(0, Completed), (1, ReturnedEarly), (2, Caught ConstructError)]] \<rparr>"
proof -
  have u: "[0..<3] = [0, 1, 2]" by (simp add: upt_rec)
  show ?thesis
    by (simp add: processWalletsInBatches_closed after_batches_def u pick_def
        own_ending_of_try own_wallet_of_try try_running try_bad_invite try_keyless)
qed

subsection \<open>C2: operations and exceptions\<close>

text \<open>
  C2 says that no operation of the session lets an exception out, whatever the
  response. \<^verbatim>\<open>checkNodeStatus\<close> reads \<^verbatim>\<open>response.data.data.startTimestamp\<close>
  without optional chaining: a body without a \<^verbatim>\<open>data\<close> field (an error body with
  a message only) makes it throw a TypeError. \<^verbatim>\<open>isWalletRegistered\<close> reads
  \<^verbatim>\<open>response.data.message\<close> on a 404 and throws when the body is \<^verbatim>\<open>null\<close>.
  The exception ends the account's workflow in the \<^verbatim>\<open>catch\<close> of
  \<^verbatim>\<open>processWallet\<close>.
\<close>

theorem operations_can_throw:
  "LayerEdgeConnection demo_lib None ''key'' ''ref'' = Inr demo_connection \<and>
   checkNodeStatus demo_pow demo_connection
       (always (Reply \<lparr> status = 429, data = JObj [(''message'', JStr ''too many requests'')] \<rparr>))
     = Inl TypeError \<and>
   isWalletRegistered demo_pow demo_connection (always (Reply \<lparr> status = 404, data = JNull \<rparr>))
     = Inl TypeError \<and>
   processWallet env_status_error demo_wallet \<lparr> success = 0, failed = 0 \<rparr> =
     (demo_wallet, \<lparr> success = 0, failed = 1 \<rparr>, Caught TypeError)"
proof -
  have a: "checkNodeStatus demo_pow demo_connection
       (always (Reply \<lparr> status = 429, data = JObj [(''message'', JStr ''too many requests'')] \<rparr>))
     = Inl TypeError"
    by (simp add: checkNodeStatus_def bind_exn_def request_eval)
  have b: "isWalletRegistered demo_pow demo_connection (always (Reply \<lparr> status = 404, data = JNull \<rparr>))
     = Inl TypeError"
    by (simp add: isWalletRegistered_def bind_exn_def request_eval)
  have c: "processWallet env_status_error demo_wallet \<lparr> success = 0, failed = 0 \<rparr> =
     (demo_wallet, \<lparr> success = 0, failed = 1 \<rparr>, Caught TypeError)"
    by (simp add: processWallet_def try_status_error)
  from a b c demo_connection_built show ?thesis by simp
qed

subsection \<open>C3: what the exponent of the backoff counts\<close>

text \<open>
  C3, as amended. The exponent of the server-fault backoff is the loop index of the
  attempt, which counts every earlier attempt whatever made it fail: in every run
  the event at position \<open>2k\<close> of the trace is attempt \<open>k\<close>, and when attempt \<open>k\<close>
  fails with status 500 and a retry follows, the timer before that retry is set
  with the number the program computes in binary64 arithmetic as
  \<^verbatim>\<open>((backoffMs * Math.pow(1.5, k)) / 1000) * 1000\<close>, each operation rounded. That
  number is the base backoff times \<open>1.5^k\<close> whenever \<^verbatim>\<open>Math.pow\<close> returns
  \<open>1.5^k\<close> exactly and both the product and its thousandth are binary64 values;
  with the default base of 2000 this is so for every index up to 29.
\<close>

theorem backoff_keyed_to_attempt_index:
  "(2 * k < length (snd (makeRequest pw cfg ro bo nw)) \<longrightarrow>
      snd (makeRequest pw cfg ro bo nw) ! (2 * k) = Attempt k) \<and>
   (2 * k + 1 < length (snd (makeRequest pw cfg ro bo nw)) \<and>
      axios cfg (nw k) = Rejected (Some 500) \<longrightarrow>
      snd (makeRequest pw cfg ro bo nw) ! (2 * k + 1) =
        Wait (dmul (ddiv (dmul (case bo of None \<Rightarrow> Fin 2000 | Some b \<Rightarrow> b) (pw (Fin (3 / 2)) k))
                      (Fin 1000)) (Fin 1000))) \<and>
   (pw (Fin (3 / 2)) k = Fin ((3 / 2) ^ k) \<and>
      representable (x * (3 / 2) ^ k) \<and> representable (x * (3 / 2) ^ k / 1000) \<longrightarrow>
      dmul (ddiv (dmul (Fin x) (pw (Fin (3 / 2)) k)) (Fin 1000)) (Fin 1000) = Fin (x * (3 / 2) ^ k)) \<and>
   (pw (Fin (3 / 2)) k = Fin ((3 / 2) ^ k) \<and> k \<le> 29 \<longrightarrow>
      dmul (ddiv (dmul (Fin 2000) (pw (Fin (3 / 2)) k)) (Fin 1000)) (Fin 1000) =
        Fin (2000 * (3 / 2) ^ k))"
proof (intro conjI impI)
  assume "2 * k < length (snd (makeRequest pw cfg ro bo nw))"
  then show "snd (makeRequest pw cfg ro bo nw) ! (2 * k) = Attempt k"
    using loop_positions[where k = k and pw = pw and cfg = cfg and nw = nw and i = 0]
    unfolding makeRequest_def by simp
next
  assume "2 * k + 1 < length (snd (makeRequest pw cfg ro bo nw)) \<and>
      axios cfg (nw k) = Rejected (Some 500)"
  then show "snd (makeRequest pw cfg ro bo nw) ! (2 * k + 1) =
        Wait (dmul (ddiv (dmul (case bo of None \<Rightarrow> Fin 2000 | Some b \<Rightarrow> b) (pw (Fin (3 / 2)) k))
                      (Fin 1000)) (Fin 1000))"
    using loop_positions[where k = k and pw = pw and cfg = cfg and nw = nw and i = 0]
    unfolding makeRequest_def by (simp add: backoff_timer_def)
next
  assume "pw (Fin (3 / 2)) k = Fin ((3 / 2) ^ k) \<and>
      representable (x * (3 / 2) ^ k) \<and> representable (x * (3 / 2) ^ k / 1000)"
  then show "dmul (ddiv (dmul (Fin x) (pw (Fin (3 / 2)) k)) (Fin 1000)) (Fin 1000) = Fin (x * (3 / 2) ^ k)"
    using backoff_timer_exact[of pw k x] by (simp add: backoff_timer_def)
next
  assume a: "pw (Fin (3 / 2)) k = Fin ((3 / 2) ^ k) \<and> k \<le> 29"
  then have "backoff_timer pw (Fin 2000) k = Fin (2000 * (3 / 2) ^ k)"
    by (intro backoff_timer_exact default_backoff_representable) simp_all
  then show "dmul (ddiv (dmul (Fin 2000) (pw (Fin (3 / 2)) k)) (Fin 1000)) (Fin 1000) =
        Fin (2000 * (3 / 2) ^ k)"
    by (simp add: backoff_timer_def)
qed

theorem backoff_keyed_to_attempt_index_witness:
  "snd (makeRequest demo_pow demo_config None None flaky_then_fault) ! 2 = Attempt 1 \<and>
   snd (makeRequest demo_pow demo_config None None flaky_then_fault) ! 3 = Wait (Fin 3000) \<and>
   dmul (ddiv (dmul (Fin 2000) (demo_pow (Fin (3 / 2)) 1)) (Fin 1000)) (Fin 1000) = Fin 3000"
proof -
  note t = backoff_keyed_to_attempt_index[where k = 1 and pw = demo_pow and cfg = demo_config
      and ro = None and bo = None and nw = flaky_then_fault]
  have h: "axios demo_config (flaky_then_fault 1) = Rejected (Some 500)"
    by (simp add: flaky_then_fault_def script_def axios_def demo_config_def)
  have p: "demo_pow (Fin (3 / 2)) 1 = Fin ((3 / 2) ^ 1)"
    by (rule demo_pow_exact) simp
  have a: "snd (makeRequest demo_pow demo_config None None flaky_then_fault) ! 2 = Attempt 1"
    using t by (simp add: flaky_then_fault_trace)
  have b: "snd (makeRequest demo_pow demo_config None None flaky_then_fault) ! 3 = Wait (Fin 3000)"
    by (simp add: flaky_then_fault_trace)
  have c: "dmul (ddiv (dmul (Fin 2000) (demo_pow (Fin (3 / 2)) 1)) (Fin 1000)) (Fin 1000) = Fin 3000"
    using t p by simp
  from a b c show ?thesis by simp
qed

text \<open>
  C3 as stated has the exponent count the server faults only. A request whose first
  attempt meets a network error and whose second meets status 500 waits 3000 ms
  after its first server fault, not the 2000 ms that \<open>2000 \<times> 1.5^(1 - 1)\<close> gives.
\<close>

theorem backoff_counts_server_faults_counterexample:
  "axios demo_config (flaky_then_fault 0) = Rejected None \<and>
   axios demo_config (flaky_then_fault 1) = Rejected (Some 500) \<and>
   server_faults_upto demo_config flaky_then_fault 1 = 1 \<and>
   snd (makeRequest demo_pow demo_config None None flaky_then_fault) =
     [Attempt 0, Wait (Fin 2000), Attempt 1, Wait (Fin 3000), Attempt 2] \<and>
   snd (makeRequest demo_pow demo_config None None flaky_then_fault) ! 3 \<noteq>
     Wait (Fin (2000 * (3 / 2) ^ (server_faults_upto demo_config flaky_then_fault 1 - 1)))"
proof -
  have f: "server_faults_upto demo_config flaky_then_fault 1 = 1"
    by (simp add: server_faults_upto_def flaky_then_fault_def script_def axios_def demo_config_def
        upt_rec)
  have a0: "axios demo_config (flaky_then_fault 0) = Rejected None"
    by (simp add: flaky_then_fault_def script_def axios_def)
  have a1: "axios demo_config (flaky_then_fault 1) = Rejected (Some 500)"
    by (simp add: flaky_then_fault_def script_def axios_def demo_config_def)
  show ?thesis
    using f a0 a1 by (simp add: flaky_then_fault_trace)
qed

subsection \<open>C4: a request that meets status 500 at every attempt\<close>

text \<open>
  C4, as amended. For every retry budget \<open>r \<ge> 1\<close>: when every attempt fails with a
  status 500 response, the request makes exactly \<open>r\<close> attempts with exactly
  \<open>r - 1\<close> waits between them, and after the last attempt the result is
  \<^verbatim>\<open>null\<close> with no wait behind it. The timer after attempt \<open>i\<close> (counted from 0)
  is set with the number the program computes in binary64 arithmetic as
  \<^verbatim>\<open>((backoffMs * Math.pow(1.5, i)) / 1000) * 1000\<close>, each operation rounded. That
  number is the base backoff times \<open>1.5^i\<close> whenever \<^verbatim>\<open>Math.pow\<close> returns
  \<open>1.5^i\<close> exactly and both the product and its thousandth are binary64 values;
  with the default base of 2000 this is so for every index up to 29.
\<close>

theorem server_fault_budget:
  assumes "1 \<le> r" and "\<forall>i<r. axios cfg (nw i) = Rejected (Some 500)"
  shows "makeRequest pw cfg (Some r) bo nw =
           (None,
            concat (map (\<lambda>i. [Attempt i,
                        Wait (dmul (ddiv (dmul (case bo of None \<Rightarrow> Fin 2000 | Some b \<Rightarrow> b)
                                           (pw (Fin (3 / 2)) i)) (Fin 1000)) (Fin 1000))])
                     [0..<r - 1]) @ [Attempt (r - 1)])
         \<and> attempts (snd (makeRequest pw cfg (Some r) bo nw)) = [0..<r]
         \<and> length (waits (snd (makeRequest pw cfg (Some r) bo nw))) = r - 1
         \<and> (\<forall>i<r - 1. \<forall>x. bo = Some (Fin x) \<and> pw (Fin (3 / 2)) i = Fin ((3 / 2) ^ i) \<and>
                representable (x * (3 / 2) ^ i) \<and> representable (x * (3 / 2) ^ i / 1000) \<longrightarrow>
                waits (snd (makeRequest pw cfg (Some r) bo nw)) ! i = Fin (x * (3 / 2) ^ i))
         \<and> (\<forall>i<r - 1. bo = None \<and> pw (Fin (3 / 2)) i = Fin ((3 / 2) ^ i) \<and> i \<le> 29 \<longrightarrow>
                waits (snd (makeRequest pw cfg (Some r) bo nw)) ! i = Fin (2000 * (3 / 2) ^ i))"
proof -
  let ?B = "case bo of None \<Rightarrow> Fin 2000 | Some b \<Rightarrow> b"
  have r: "0 < r" using assms(1) by simp
  have eq0: "makeRequest pw cfg (Some r) bo nw =
           (None, concat (map (\<lambda>i. [Attempt i, Wait (backoff_timer pw ?B i)]) [0..<r - 1])
                  @ [Attempt (r - 1)])"
    unfolding makeRequest_def using loop_all_500[OF r, of cfg nw pw ?B] assms(2) by simp
  have up: "[0..<r - 1] @ [r - 1] = [0..<r]"
    using r by (metis Suc_pred' upt_Suc_append zero_le One_nat_def)
  have at: "attempts (snd (makeRequest pw cfg (Some r) bo nw)) = [0..<r]"
    by (simp only: eq0 snd_conv attempts_pairs up)
  have wt: "waits (snd (makeRequest pw cfg (Some r) bo nw)) = map (backoff_timer pw ?B) [0..<r - 1]"
    by (simp only: eq0 snd_conv waits_pairs)
  have ln: "length (waits (snd (makeRequest pw cfg (Some r) bo nw))) = r - 1"
    by (simp add: wt)
  have nth: "waits (snd (makeRequest pw cfg (Some r) bo nw)) ! i = backoff_timer pw ?B i"
    if "i < r - 1" for i
    using that by (simp add: wt)
  have ex: "\<forall>i<r - 1. \<forall>x. bo = Some (Fin x) \<and> pw (Fin (3 / 2)) i = Fin ((3 / 2) ^ i) \<and>
                representable (x * (3 / 2) ^ i) \<and> representable (x * (3 / 2) ^ i / 1000) \<longrightarrow>
                waits (snd (makeRequest pw cfg (Some r) bo nw)) ! i = Fin (x * (3 / 2) ^ i)"
  proof (intro allI impI)
    fix i x
    assume i: "i < r - 1"
      and a: "bo = Some (Fin x) \<and> pw (Fin (3 / 2)) i = Fin ((3 / 2) ^ i) \<and>
                representable (x * (3 / 2) ^ i) \<and> representable (x * (3 / 2) ^ i / 1000)"
    then have "backoff_timer pw (Fin x) i = Fin (x * (3 / 2) ^ i)"
      by (intro backoff_timer_exact) simp_all
    with nth[OF i] a show "waits (snd (makeRequest pw cfg (Some r) bo nw)) ! i = Fin (x * (3 / 2) ^ i)"
      by simp
  qed
  have df: "\<forall>i<r - 1. bo = None \<and> pw (Fin (3 / 2)) i = Fin ((3 / 2) ^ i) \<and> i \<le> 29 \<longrightarrow>
                waits (snd (makeRequest pw cfg (Some r) bo nw)) ! i = Fin (2000 * (3 / 2) ^ i)"
  proof (intro allI impI)
    fix i
    assume i: "i < r - 1"
      and a: "bo = None \<and> pw (Fin (3 / 2)) i = Fin ((3 / 2) ^ i) \<and> i \<le> 29"
    then have "backoff_timer pw (Fin 2000) i = Fin (2000 * (3 / 2) ^ i)"
      by (intro backoff_timer_exact default_backoff_representable) simp_all
    with nth[OF i] a show "waits (snd (makeRequest pw cfg (Some r) bo nw)) ! i = Fin (2000 * (3 / 2) ^ i)"
      by simp
  qed
  have eq: "makeRequest pw cfg (Some r) bo nw =
           (None,
            concat (map (\<lambda>i. [Attempt i,
                        Wait (dmul (ddiv (dmul ?B (pw (Fin (3 / 2)) i)) (Fin 1000)) (Fin 1000))])
                     [0..<r - 1]) @ [Attempt (r - 1)])"
    using eq0 by (simp add: backoff_timer_def)
  from eq at ln ex df show ?thesis by blast
qed

theorem server_fault_budget_witness:
  "makeRequest demo_pow demo_config (Some 3) None (always (Reply \<lparr> status = 500, data = JNull \<rparr>)) =
     (None, [Attempt 0, Wait (Fin 2000), Attempt 1, Wait (Fin 3000), Attempt 2])"
proof -
  let ?nw = "always (Reply \<lparr> status = 500, data = JNull \<rparr>)"
  have h: "\<forall>i<3. axios demo_config (?nw i) = Rejected (Some 500)"
    by (simp add: axios_def always_def demo_config_def)
  have one: "(1::nat) \<le> 3" by simp
  note t = server_fault_budget[OF one h, where pw = demo_pow and bo = None]
  have eq: "makeRequest demo_pow demo_config (Some 3) None ?nw =
          (None, [Attempt 0, Wait (backoff_timer demo_pow (Fin 2000) 0),
                  Attempt 1, Wait (backoff_timer demo_pow (Fin 2000) 1), Attempt 2])"
    using t by (simp add: backoff_timer_def upt_rec)
  have w0: "backoff_timer demo_pow (Fin 2000) 0 = Fin 2000"
    using default_backoff_demo[of 0] by simp
  have w1: "backoff_timer demo_pow (Fin 2000) 1 = Fin 3000"
    using default_backoff_demo[of 1] by simp
  show ?thesis by (simp only: eq w0 w1)
qed

text \<open>
  C4 as stated has the delay equal to the base backoff times \<open>1.5^i\<close> for every
  base. With a base of 1001 and a budget of 2 the quotient \<open>1001 / 1000\<close> is not a
  binary64 value; it is rounded, and the product with 1000 is rounded again. The
  timer after attempt 0 is set with \<open>8804889115230207 / 2^43\<close>, the binary64 value
  just below 1001 (printed as 1000.9999999999999), not with \<open>1001 \<times> 1.5^0\<close>.
\<close>

theorem server_fault_delay_rounded_counterexample:
  "axios demo_config (always (Reply \<lparr> status = 500, data = JNull \<rparr>) 0) = Rejected (Some 500) \<and>
   axios demo_config (always (Reply \<lparr> status = 500, data = JNull \<rparr>) 1) = Rejected (Some 500) \<and>
   demo_pow (Fin (3 / 2)) 0 = Fin 1 \<and>
   representable 1001 \<and>
   makeRequest demo_pow demo_config (Some 2) (Some (Fin 1001))
       (always (Reply \<lparr> status = 500, data = JNull \<rparr>)) =
     (None, [Attempt 0, Wait (Fin (8804889115230207 / 8796093022208)), Attempt 1]) \<and>
   Fin (8804889115230207 / 8796093022208) \<noteq> Fin (1001 * (3 / 2) ^ 0)"
proof -
  let ?nw = "always (Reply \<lparr> status = 500, data = JNull \<rparr>)"
  have a: "axios demo_config (?nw i) = Rejected (Some 500)" for i
    by (simp add: axios_def always_def demo_config_def)
  have p: "demo_pow (Fin (3 / 2)) 0 = Fin 1" by (simp add: demo_pow_def)
  have r1: "representable 1001" unfolding representable_def by code_simp
  have w: "backoff_timer demo_pow (Fin 1001) 0 = Fin (8804889115230207 / 8796093022208)"
    unfolding backoff_timer_def p by code_simp
  have s0: "makeRequest_loop demo_pow demo_config ?nw 2 (Fin 1001) 0 =
      (fst (makeRequest_loop demo_pow demo_config ?nw 2 (Fin 1001) (Suc 0)),
       Attempt 0 # Wait (backoff_timer demo_pow (Fin 1001) 0) #
       snd (makeRequest_loop demo_pow demo_config ?nw 2 (Fin 1001) (Suc 0)))"
    using a[of 0] by (intro loop_500_step) simp_all
  have s1: "makeRequest_loop demo_pow demo_config ?nw 2 (Fin 1001) (Suc 0) = (None, [Attempt (Suc 0)])"
    using a[of "Suc 0"] by (intro loop_last) simp_all
  have tr: "makeRequest demo_pow demo_config (Some 2) (Some (Fin 1001)) ?nw =
     (None, [Attempt 0, Wait (Fin (8804889115230207 / 8796093022208)), Attempt 1])"
    unfolding makeRequest_def by (simp add: s0 s1 w)
  have ne: "Fin (8804889115230207 / 8796093022208) \<noteq> Fin (1001 * (3 / 2) ^ 0)" by simp
  from a[of 0] a[of 1] p r1 tr ne show ?thesis by blast
qed

subsection \<open>C5: batches\<close>

text \<open>
  C5. For every list of \<open>N\<close> accounts and every batch size \<open>B \<ge> 1\<close> the run
  returns, having settled \<open>\<lceil>N / B\<rceil>\<close> batches one after the other. Batch \<open>g\<close> holds
  the accounts \<open>g * B, \<dots>\<close> up to \<open>g * B + B\<close> or the end of the list, so the sizes
  are \<open>B, \<dots>, B\<close> and the remainder, and the batches in order hold the accounts
  \<open>0, \<dots>, N - 1\<close>. Every account is recorded in its batch with the ending its own
  workflow has when taken by itself, and its account record is what its own
  workflow leaves: an exception in one workflow is caught there, recorded as
  \<open>Caught\<close> and counted in \<open>failed\<close>, and changes nothing for any other account.
\<close>

theorem batches_partition_and_isolate:
  assumes "0 < B"
  shows "\<exists>r. processWalletsInBatches envs ws B = Some r \<and>
     length (batches r) = nat \<lceil>real (length ws) / real B\<rceil> \<and>
     (\<forall>g < length (batches r).
        batches r ! g = map (\<lambda>k. (k, own_ending (envs k) (ws ! k)))
                          [g * B ..< min (g * B + B) (length ws)] \<and>
        length (batches r ! g) = (if Suc g < length (batches r) then B else length ws - g * B)) \<and>
     concat (map (map fst) (batches r)) = [0..<length ws] \<and>
     (\<forall>k < length ws.
        wallets r ! k = own_wallet (envs k) (ws ! k) \<and>
        (\<forall>x. snd (processWallet_try (envs k) (ws ! k)) = Throw x \<longrightarrow>
               own_ending (envs k) (ws ! k) = Caught x)) \<and>
     failed (counters r) =
       length (filter (\<lambda>k. is_caught (own_ending (envs k) (ws ! k))) [0..<length ws]) \<and>
     success (counters r) =
       length (filter (\<lambda>k. own_ending (envs k) (ws ! k) = Completed) [0..<length ws])"
proof -
  let ?N = "length ws"
  let ?G = "(?N + B - 1) div B"
  let ?r = "after_batches envs ws B ?G"
  have B: "0 < B" by (rule assms)
  have full: "?N \<le> ?G * B" using ceil_less[OF B, of ?G ?N] by simp
  have run: "processWalletsInBatches envs ws B = Some ?r"
    using B by (rule processWalletsInBatches_closed)
  have len: "length (batches ?r) = nat \<lceil>real ?N / real B\<rceil>"
    by (simp add: after_batches_def ceil_div[OF B])
  have lenG: "length (batches ?r) = ?G" by (simp add: after_batches_def)
  have grp: "batches ?r ! g = map (\<lambda>k. (k, own_ending (envs k) (ws ! k)))
                          [g * B ..< min (g * B + B) ?N]" if "g < ?G" for g
    using that by (simp add: after_batches_def)
  have size: "length (batches ?r ! g) = (if Suc g < ?G then B else ?N - g * B)" if "g < ?G" for g
  proof -
    have here: "g * B < ?N" using ceil_less[OF B, of g ?N] that by simp
    show ?thesis
    proof (cases "Suc g < ?G")
      case True
      then have "Suc g * B < ?N" using ceil_less[OF B, of "Suc g" ?N] by simp
      then show ?thesis unfolding grp[OF that] using True by simp
    next
      case False
      then have "\<not> Suc g * B < ?N" using ceil_less[OF B, of "Suc g" ?N] by simp
      then show ?thesis unfolding grp[OF that] using False by (auto simp add: min_def)
    qed
  qed
  have idx: "concat (map (map fst) (batches ?r)) = [0..<?N]"
  proof -
    have "map (map fst) (batches ?r) = map (\<lambda>j. [j * B..<min (j * B + B) ?N]) [0..<?G]"
      by (simp add: after_batches_def comp_def)
    then show ?thesis using chunks_concat[OF B, of ?N ?G] full by (simp add: min_def)
  qed
  have own: "wallets ?r ! k = own_wallet (envs k) (ws ! k)" if "k < ?N" for k
    using that full by (simp add: after_batches_def)
  have fl: "failed (counters ?r) =
       length (filter (\<lambda>k. is_caught (own_ending (envs k) (ws ! k))) [0..<?N])"
    using full by (simp add: after_batches_def count_failed filter_map comp_def min_def)
  have su: "success (counters ?r) =
       length (filter (\<lambda>k. own_ending (envs k) (ws ! k) = Completed) [0..<?N])"
    using full by (simp add: after_batches_def count_success filter_map comp_def min_def)
  show ?thesis
    apply (rule exI[of _ ?r])
    apply (intro conjI allI impI)
          apply (rule run)
         apply (rule len)
        apply (simp only: lenG grp)
       apply (simp only: lenG size)
      apply (rule idx)
     apply (simp only: own)
    apply (simp only: own_ending_caught)
     apply (rule fl)
    apply (rule su)
    done
qed

theorem batches_partition_and_isolate_witness:
  "map_option batches (processWalletsInBatches (pick [env_running, env_running, env_offline])
       [keyless_wallet, demo_wallet, demo_wallet] 2) =
     Some [[(0, Caught ConstructError), (1, Completed)], [(2, Completed)]] \<and>
   map_option (failed \<circ> counters) (processWalletsInBatches (pick [env_running, env_running, env_offline])
       [keyless_wallet, demo_wallet, demo_wallet] 2) = Some 1"
proof -
  let ?envs = "pick [env_running, env_running, env_offline]"
  let ?ws = "[keyless_wallet, demo_wallet, demo_wallet]"
  have e0: "own_ending (?envs 0) (?ws ! 0) = Caught ConstructError"
    by (simp add: pick_def own_ending_of_try try_keyless)
  have e1: "own_ending (?envs (Suc 0)) (?ws ! Suc 0) = Completed"
    by (simp add: pick_def own_ending_of_try try_running)
  have e2: "own_ending (?envs (Suc (Suc 0))) (?ws ! Suc (Suc 0)) = Completed"
    by (simp add: pick_def own_ending_of_try try_offline)
  have c: "nat \<lceil>real (length ?ws) / real (2::nat)\<rceil> = 2"
    by (simp add: ceiling_eq_iff)
  have pos: "0 < (2::nat)" by simp
  from batches_partition_and_isolate[OF pos, of ?envs ?ws]
  obtain r where run: "processWalletsInBatches ?envs ?ws 2 = Some r"
    and len0: "length (batches r) = nat \<lceil>real (length ?ws) / real (2::nat)\<rceil>"
    and grp: "\<forall>g<length (batches r).
        batches r ! g = map (\<lambda>k. (k, own_ending (?envs k) (?ws ! k)))
                          [g * 2 ..< min (g * 2 + 2) (length ?ws)] \<and>
        length (batches r ! g) = (if Suc g < length (batches r) then 2 else length ?ws - g * 2)"
    and fl: "failed (counters r) =
       length (filter (\<lambda>k. is_caught (own_ending (?envs k) (?ws ! k))) [0..<length ?ws])"
    by blast
  have len: "length (batches r) = 2" using len0 c by simp
  have u2: "[0..<2] = [0, 1]" and u3: "[0..<3] = [0, 1, 2]" and u23: "[2..<3] = [2]"
    by (simp_all add: upt_rec)
  have g0: "batches r ! 0 = [(0, Caught ConstructError), (1, Completed)]"
    using grp len e0 e1 by (simp add: u2)
  have g1: "batches r ! 1 = [(2, Completed)]"
    using grp len e2 by (simp add: u23)
  have b: "batches r = [[(0, Caught ConstructError), (1, Completed)], [(2, Completed)]]"
    using len g0 g1 by (intro nth_equalityI) (auto simp: less_Suc_eq numeral_2_eq_2)
  have f: "failed (counters r) = 1"
    using fl e0 e1 e2 by (simp add: u3)
  show ?thesis using run b f by simp
qed

subsection \<open>C6: the three results of the registration check\<close>

text \<open>
  C6. When the registration check returns, its result is \<^verbatim>\<open>true\<close>,
  \<^verbatim>\<open>false\<close> or \<^verbatim>\<open>null\<close>. On \<^verbatim>\<open>true\<close> and on \<^verbatim>\<open>null\<close> the next
  operation is the daily check-in, and neither the referral verification nor the
  registration is called in the whole run. On \<^verbatim>\<open>false\<close> the next operation is
  the referral verification; the registration follows it when the code is valid,
  and the daily check-in follows the registration when that succeeds; an invalid
  code or a failed registration ends the run there.
\<close>

theorem registration_branches:
  assumes "LayerEdgeConnection (lib e) (wproxy w) (privateKey w) (wrefCode w) = Inr c"
    and "isWalletRegistered (Math_pow e) c (net e IsWalletRegistered) = Inr v"
  shows "(v = JBool True \<or> v = JBool False \<or> v = JNull) \<and>
    (v = JBool True \<or> v = JNull \<longrightarrow>
       take 2 (fst (processWallet_try e w)) = [IsWalletRegistered, DailyCheckIn] \<and>
       CheckInvite \<notin> set (fst (processWallet_try e w)) \<and>
       RegisterWallet \<notin> set (fst (processWallet_try e w))) \<and>
    (v = JBool False \<longrightarrow>
       take 2 (fst (processWallet_try e w)) = [IsWalletRegistered, CheckInvite] \<and>
       (checkInvite (Math_pow e) c (net e CheckInvite) = Inr (JBool True) \<longrightarrow>
          take 3 (fst (processWallet_try e w)) = [IsWalletRegistered, CheckInvite, RegisterWallet]) \<and>
       (checkInvite (Math_pow e) c (net e CheckInvite) = Inr (JBool True) \<and>
        registerWallet (Math_pow e) c (net e RegisterWallet) = Inr (JBool True) \<longrightarrow>
          take 4 (fst (processWallet_try e w)) =
            [IsWalletRegistered, CheckInvite, RegisterWallet, DailyCheckIn]) \<and>
       (checkInvite (Math_pow e) c (net e CheckInvite) = Inr (JBool True) \<and>
        registerWallet (Math_pow e) c (net e RegisterWallet) = Inr (JBool False) \<longrightarrow>
          fst (processWallet_try e w) = [IsWalletRegistered, CheckInvite, RegisterWallet]) \<and>
       (checkInvite (Math_pow e) c (net e CheckInvite) = Inr (JBool False) \<longrightarrow>
          fst (processWallet_try e w) = [IsWalletRegistered, CheckInvite]))"
proof -
  have vals: "v = JBool True \<or> v = JBool False \<or> v = JNull"
    using assms(2) by (rule isWalletRegistered_values)
  have tr: "fst (processWallet_try e w) =
     (if v = JBool False then
            (if checkInvite (Math_pow e) c (net e CheckInvite) = Inr (JBool True) then
               (if registerWallet (Math_pow e) c (net e RegisterWallet) = Inr (JBool True) then
                  [IsWalletRegistered, CheckInvite, RegisterWallet] @ fst (from_attestation c e)
                else [IsWalletRegistered, CheckInvite, RegisterWallet])
             else [IsWalletRegistered, CheckInvite])
          else IsWalletRegistered # fst (from_attestation c e))"
    by (simp add: try_trace[OF assms(1)] assms(2))
  have att: "fst (from_attestation c e) = [DailyCheckIn, CheckNodeStatus] \<or>
     fst (from_attestation c e) = [DailyCheckIn, CheckNodeStatus, StopNode, ConnectNode, CheckNodePoints] \<or>
     fst (from_attestation c e) = [DailyCheckIn, CheckNodeStatus, ConnectNode, CheckNodePoints]"
    by (simp add: from_attestation_trace split: sum.splits)
  from att show ?thesis
    by (elim disjE) (simp_all add: tr vals)
qed

theorem registration_branches_witness:
  "take 4 (fst (processWallet_try env_newcomer demo_wallet)) =
     [IsWalletRegistered, CheckInvite, RegisterWallet, DailyCheckIn] \<and>
   take 2 (fst (processWallet_try env_running demo_wallet)) = [IsWalletRegistered, DailyCheckIn] \<and>
   CheckInvite \<notin> set (fst (processWallet_try env_running demo_wallet)) \<and>
   RegisterWallet \<notin> set (fst (processWallet_try env_running demo_wallet)) \<and>
   take 2 (fst (processWallet_try env_offline demo_wallet)) = [IsWalletRegistered, DailyCheckIn] \<and>
   fst (processWallet_try env_bad_invite demo_wallet) = [IsWalletRegistered, CheckInvite]"
proof -
  have s1: "LayerEdgeConnection (lib env_newcomer) (wproxy demo_wallet) (privateKey demo_wallet)
              (wrefCode demo_wallet) = Inr demo_connection"
    by (simp add: env_newcomer_def demo_wallet_session)
  have r1: "isWalletRegistered (Math_pow env_newcomer) demo_connection (net env_newcomer IsWalletRegistered) = Inr (JBool False)"
    by (simp add: env_newcomer_def operation_eval request_eval)
  have i1: "checkInvite (Math_pow env_newcomer) demo_connection (net env_newcomer CheckInvite) = Inr (JBool True)"
    by (simp add: env_newcomer_def operation_eval request_eval)
  have g1: "registerWallet (Math_pow env_newcomer) demo_connection (net env_newcomer RegisterWallet) = Inr (JBool True)"
    by (simp add: env_newcomer_def operation_eval request_eval)
  have p1: "take 4 (fst (processWallet_try env_newcomer demo_wallet)) =
     [IsWalletRegistered, CheckInvite, RegisterWallet, DailyCheckIn]"
    using registration_branches[OF s1 r1] i1 g1 by simp
  have s2: "LayerEdgeConnection (lib env_running) (wproxy demo_wallet) (privateKey demo_wallet)
              (wrefCode demo_wallet) = Inr demo_connection"
    by (simp add: env_running_def demo_wallet_session)
  have r2: "isWalletRegistered (Math_pow env_running) demo_connection (net env_running IsWalletRegistered) = Inr (JBool True)"
    by (simp add: env_running_def operation_eval request_eval)
  have p2: "take 2 (fst (processWallet_try env_running demo_wallet)) = [IsWalletRegistered, DailyCheckIn] \<and>
     CheckInvite \<notin> set (fst (processWallet_try env_running demo_wallet)) \<and>
     RegisterWallet \<notin> set (fst (processWallet_try env_running demo_wallet))"
    using registration_branches[OF s2 r2] by simp
  have s3: "LayerEdgeConnection (lib env_offline) (wproxy demo_wallet) (privateKey demo_wallet)
              (wrefCode demo_wallet) = Inr demo_connection"
    by (simp add: env_offline_def demo_wallet_session)
  have r3: "isWalletRegistered (Math_pow env_offline) demo_connection (net env_offline IsWalletRegistered) = Inr JNull"
    by (simp add: env_offline_def operation_eval request_eval)
  have p3: "take 2 (fst (processWallet_try env_offline demo_wallet)) = [IsWalletRegistered, DailyCheckIn]"
    using registration_branches[OF s3 r3] by simp
  have s4: "LayerEdgeConnection (lib env_bad_invite) (wproxy demo_wallet) (privateKey demo_wallet)
              (wrefCode demo_wallet) = Inr demo_connection"
    by (simp add: env_bad_invite_def demo_wallet_session)
  have r4: "isWalletRegistered (Math_pow env_bad_invite) demo_connection (net env_bad_invite IsWalletRegistered) = Inr (JBool False)"
    by (simp add: env_bad_invite_def operation_eval request_eval)
  have i4: "checkInvite (Math_pow env_bad_invite) demo_connection (net env_bad_invite CheckInvite) = Inr (JBool False)"
    by (simp add: env_bad_invite_def operation_eval request_eval)
  have p4: "fst (processWallet_try env_bad_invite demo_wallet) = [IsWalletRegistered, CheckInvite]"
    using registration_branches[OF s4 r4] i4 by simp
  from p1 p2 p3 p4 show ?thesis by simp
qed

subsection \<open>C7: stopping and reconnecting the node\<close>

text \<open>
  When \<^verbatim>\<open>checkNodeStatus\<close> reports, its report is \<^verbatim>\<open>true\<close> or \<^verbatim>\<open>false\<close>.
  On \<^verbatim>\<open>true\<close> the operations from there on are the status check,
  \<^verbatim>\<open>stopNode\<close>, \<^verbatim>\<open>connectNode\<close> and the point query, in this order; on
  \<^verbatim>\<open>false\<close>, \<^verbatim>\<open>stopNode\<close> is not called in the run and \<^verbatim>\<open>connectNode\<close>
  follows the status check directly.
\<close>

lemma node_steps_when_reported:
  assumes "LayerEdgeConnection (lib e) (wproxy w) (privateKey w) (wrefCode w) = Inr c"
    and "CheckNodeStatus \<in> set (fst (processWallet_try e w))"
    and "checkNodeStatus (Math_pow e) c (net e CheckNodeStatus) = Inr v"
  shows "(v = JBool True \<or> v = JBool False) \<and>
    (v = JBool True \<longrightarrow>
       dropWhile (\<lambda>f. f \<noteq> CheckNodeStatus) (fst (processWallet_try e w)) =
         [CheckNodeStatus, StopNode, ConnectNode, CheckNodePoints]) \<and>
    (v = JBool False \<longrightarrow>
       dropWhile (\<lambda>f. f \<noteq> CheckNodeStatus) (fst (processWallet_try e w)) =
         [CheckNodeStatus, ConnectNode, CheckNodePoints] \<and>
       StopNode \<notin> set (fst (processWallet_try e w))) \<and>
    ConnectNode \<in> set (fst (processWallet_try e w)) \<and>
    set (takeWhile (\<lambda>f. f \<noteq> CheckNodeStatus) (fst (processWallet_try e w)))
      \<subseteq> {IsWalletRegistered, CheckInvite, RegisterWallet, DailyCheckIn}"
proof -
  have vals: "v = JBool True \<or> v = JBool False"
    using assms(3) by (rule checkNodeStatus_values)
  have att: "fst (from_attestation c e) =
      (if truthy v then [DailyCheckIn, CheckNodeStatus, StopNode, ConnectNode, CheckNodePoints]
       else [DailyCheckIn, CheckNodeStatus, ConnectNode, CheckNodePoints])"
    by (simp add: from_attestation_trace assms(3))
  from vals show ?thesis
    using assms(2)
    by (auto simp add: try_trace[OF assms(1)] att split: sum.splits if_splits)
qed

text \<open>
  C7 says that in every run that reaches the node-status step \<^verbatim>\<open>connectNode\<close> is
  called, whatever the earlier steps gave. \<^verbatim>\<open>checkNodeStatus\<close> does not always
  report: on a response whose body has no \<^verbatim>\<open>data\<close> field it throws (the unguarded
  \<^verbatim>\<open>response.data.data.startTimestamp\<close> of C2), and the exception takes the run
  from the status check to the \<^verbatim>\<open>catch\<close> of \<^verbatim>\<open>processWallet\<close>. Here is a
  registered account whose status query is answered with status 429 and a body
  holding a message only: the run calls the registration check, the daily check-in
  and the status check, and ends there with a TypeError; \<^verbatim>\<open>connectNode\<close> is never
  called.
\<close>

theorem node_status_throw_skips_connect:
  "processWallet_try env_status_error demo_wallet =
     ([IsWalletRegistered, DailyCheckIn, CheckNodeStatus], Throw TypeError) \<and>
   checkNodeStatus (Math_pow env_status_error) demo_connection (net env_status_error CheckNodeStatus)
     = Inl TypeError \<and>
   CheckNodeStatus \<in> set (fst (processWallet_try env_status_error demo_wallet)) \<and>
   ConnectNode \<notin> set (fst (processWallet_try env_status_error demo_wallet))"
proof -
  have a: "checkNodeStatus (Math_pow env_status_error) demo_connection
             (net env_status_error CheckNodeStatus) = Inl TypeError"
    by (simp add: env_status_error_def operation_eval request_eval)
  show ?thesis by (simp add: try_status_error a)
qed

subsection \<open>C8: failures other than status 500\<close>

text \<open>
  C8. A request whose attempts all fail otherwise than with status 500 (no reply,
  or a rejected status other than 500) waits 2000 ms before each retry, whatever
  the attempt index and whatever the base backoff, and returns \<^verbatim>\<open>null\<close> after
  its last attempt. In any run, the wait that follows an attempt which did not fail
  with status 500 is 2000 ms; a request all of whose attempts are rejected returns
  \<^verbatim>\<open>null\<close>. Through a session, a reply with a status below 500 is the result of
  the request, and no attempt follows it.
\<close>

theorem other_failure_constant_delay:
  "(1 \<le> r \<and> (\<forall>i<r. \<exists>st. axios cfg (nw i) = Rejected st \<and> st \<noteq> Some 500) \<longrightarrow>
      makeRequest pw cfg (Some r) bo nw =
        (None, concat (map (\<lambda>i. [Attempt i, Wait (Fin 2000)]) [0..<r - 1]) @ [Attempt (r - 1)]))
   \<and> (\<forall>k. 2 * k + 1 < length (snd (makeRequest pw cfg ro bo nw)) \<and>
           axios cfg (nw k) \<noteq> Rejected (Some 500) \<longrightarrow>
           snd (makeRequest pw cfg ro bo nw) ! (2 * k) = Attempt k \<and>
           snd (makeRequest pw cfg ro bo nw) ! (2 * k + 1) = Wait (Fin 2000))
   \<and> ((\<forall>i < (case ro of None \<Rightarrow> 3 | Some n \<Rightarrow> n). \<exists>st. axios cfg (nw i) = Rejected st) \<longrightarrow>
          fst (makeRequest pw cfg ro bo nw) = None)
   \<and> (LayerEdgeConnection lb prx key code = Inr c \<and>
        Attempt k \<in> set (snd (connection_makeRequest pw c m u nw)) \<and>
        nw k = Reply resp \<and> status resp < 500 \<longrightarrow>
          fst (connection_makeRequest pw c m u nw) = Some resp \<and>
          last (snd (connection_makeRequest pw c m u nw)) = Attempt k)"
proof (intro conjI impI allI)
  assume a: "1 \<le> r \<and> (\<forall>i<r. \<exists>st. axios cfg (nw i) = Rejected st \<and> st \<noteq> Some 500)"
  then have r: "0 < r" by simp
  show "makeRequest pw cfg (Some r) bo nw =
        (None, concat (map (\<lambda>i. [Attempt i, Wait (Fin 2000)]) [0..<r - 1]) @ [Attempt (r - 1)])"
    unfolding makeRequest_def using loop_all_other[OF r, where cfg = cfg and nw = nw and pw = pw] a by simp
next
  fix k
  assume a: "2 * k + 1 < length (snd (makeRequest pw cfg ro bo nw)) \<and>
           axios cfg (nw k) \<noteq> Rejected (Some 500)"
  then have b: "2 * k < length (snd (makeRequest pw cfg ro bo nw))" by simp
  show "snd (makeRequest pw cfg ro bo nw) ! (2 * k) = Attempt k"
    using b loop_positions[where k = k and pw = pw and cfg = cfg and nw = nw and i = 0] unfolding makeRequest_def by simp
  show "snd (makeRequest pw cfg ro bo nw) ! (2 * k + 1) = Wait (Fin 2000)"
    using a loop_positions[where k = k and pw = pw and cfg = cfg and nw = nw and i = 0] unfolding makeRequest_def by simp
next
  assume "\<forall>i < (case ro of None \<Rightarrow> 3 | Some n \<Rightarrow> n). \<exists>st. axios cfg (nw i) = Rejected st"
  then show "fst (makeRequest pw cfg ro bo nw) = None"
    unfolding makeRequest_def by (intro loop_all_rejected_null) simp
next
  assume a: "LayerEdgeConnection lb prx key code = Inr c \<and>
        Attempt k \<in> set (snd (connection_makeRequest pw c m u nw)) \<and>
        nw k = Reply resp \<and> status resp < 500"
  then have c: "LayerEdgeConnection lb prx key code = Inr c" by simp
  have "axios ((axiosConfig c)\<lparr> method := m, url := u \<rparr>) (nw k) = Resolved resp"
    using a session_axios[OF c, where m=m and u=u and resp=resp] by simp
  with a loop_resolved_ends[where k = k and pw = pw and cfg = "(axiosConfig c)\<lparr> method := m, url := u \<rparr>"
      and nw = nw and i = 0 and resp = resp]
  have "fst (connection_makeRequest pw c m u nw) = Some resp \<and>
          last (snd (connection_makeRequest pw c m u nw)) = Attempt k"
    unfolding connection_makeRequest_def makeRequest_def by simp
  then show "fst (connection_makeRequest pw c m u nw) = Some resp"
    and "last (snd (connection_makeRequest pw c m u nw)) = Attempt k" by simp_all
qed

theorem other_failure_constant_delay_witness:
  "makeRequest demo_pow demo_config (Some 3) (Some (Fin 5000)) (always NetworkError) =
     (None, [Attempt 0, Wait (Fin 2000), Attempt 1, Wait (Fin 2000), Attempt 2]) \<and>
   snd (makeRequest demo_pow demo_config None None flaky_then_fault) ! 1 = Wait (Fin 2000) \<and>
   fst (makeRequest demo_pow demo_config None None (always (Reply \<lparr> status = 503, data = JNull \<rparr>))) = None \<and>
   connection_makeRequest demo_pow demo_connection ''get'' ''u'' (always (Reply \<lparr> status = 404, data = JNull \<rparr>)) =
     (Some \<lparr> status = 404, data = JNull \<rparr>, [Attempt 0])"
proof -
  note t = other_failure_constant_delay[where pw = demo_pow]
  have h1: "\<forall>i<3. \<exists>st. axios demo_config (always NetworkError i) = Rejected st \<and> st \<noteq> Some 500"
    by (simp add: axios_def always_def)
  have u: "[0..<2] = [0, Suc 0]" by (simp add: upt_rec)
  have p1: "makeRequest demo_pow demo_config (Some 3) (Some (Fin 5000)) (always NetworkError) =
     (None, [Attempt 0, Wait (Fin 2000), Attempt 1, Wait (Fin 2000), Attempt 2])"
    using t[where r=3 and cfg=demo_config and nw="always NetworkError" and bo="Some (Fin 5000)"] h1
    by (simp add: u)
  have h2: "axios demo_config (flaky_then_fault 0) \<noteq> Rejected (Some 500)"
    by (simp add: flaky_then_fault_def script_def axios_def)
  have p2: "snd (makeRequest demo_pow demo_config None None flaky_then_fault) ! 1 = Wait (Fin 2000)"
    using t[where cfg=demo_config and nw=flaky_then_fault and ro=None and bo=None, THEN conjunct2,
            THEN conjunct1, THEN spec, of 0] h2
    by (simp add: flaky_then_fault_trace)
  have h3: "\<forall>i<3. \<exists>st. axios demo_config (always (Reply \<lparr> status = 503, data = JNull \<rparr>) i) = Rejected st"
    by (simp add: axios_def always_def demo_config_def)
  have p3: "fst (makeRequest demo_pow demo_config None None (always (Reply \<lparr> status = 503, data = JNull \<rparr>))) = None"
    using t[where cfg=demo_config and nw="always (Reply \<lparr> status = 503, data = JNull \<rparr>)" and ro=None and bo=None] h3
    by simp
  have tr: "connection_makeRequest demo_pow demo_connection ''get'' ''u'' (always (Reply \<lparr> status = 404, data = JNull \<rparr>)) =
     (Some \<lparr> status = 404, data = JNull \<rparr>, [Attempt 0])"
    by (simp add: connection_makeRequest_def demo_connection_def makeRequest_def
        makeRequest_loop.simps axios_def always_def)
  have p4: "fst (connection_makeRequest demo_pow demo_connection ''get'' ''u'' (always (Reply \<lparr> status = 404, data = JNull \<rparr>))) =
      Some \<lparr> status = 404, data = JNull \<rparr> \<and>
      last (snd (connection_makeRequest demo_pow demo_connection ''get'' ''u'' (always (Reply \<lparr> status = 404, data = JNull \<rparr>)))) = Attempt 0"
    using t[where lb=demo_lib and prx=None and key="''key''" and code="''ref''"
        and c=demo_connection and m="''get''" and u="''u''" and k=0
        and nw="always (Reply \<lparr> status = 404, data = JNull \<rparr>)"
        and resp="\<lparr> status = 404, data = JNull \<rparr>"] demo_connection_built
    by (simp add: tr always_def)
  show ?thesis using p1 p2 p3 p4 tr by simp
qed

subsection \<open>C9: the point total\<close>

text \<open>
  C9, as amended. When the response has a truthy body whose points field is
  missing, \<^verbatim>\<open>checkNodePoints\<close> returns 0, and when the field is a number it
  returns that number. It returns \<^verbatim>\<open>null\<close> exactly when the transport yielded no
  response or the body of the response is falsy (absent, \<^verbatim>\<open>null\<close>, empty, 0 or
  \<^verbatim>\<open>false\<close>). It throws, and then a TypeError, exactly when the body is truthy
  and its points field is a value the logger cannot turn into a string. In a run
  that reaches the point query, a value it returns, \<^verbatim>\<open>null\<close> included, is stored
  in the point field of the account and the run counts as a success; an exception
  it throws leaves the account as it was and the run counts as failed.
\<close>

theorem points_total:
  "(fst (connection_makeRequest pw c m u nw) = Some r \<and> truthy (data r) \<and>
      get_prop_opt (get_prop_opt (data r) ''data'') ''nodePoints'' = JUndefined \<longrightarrow>
        checkNodePoints pw c nw = Inr (JNum 0)) \<and>
   (fst (connection_makeRequest pw c m u nw) = Some r \<and> truthy (data r) \<and>
      get_prop_opt (get_prop_opt (data r) ''data'') ''nodePoints'' = JNum n \<longrightarrow>
        checkNodePoints pw c nw = Inr (JNum n)) \<and>
   (checkNodePoints pw c nw = Inr JNull \<longleftrightarrow>
      fst (connection_makeRequest pw c m u nw) = None \<or>
      (\<exists>r'. fst (connection_makeRequest pw c m u nw) = Some r' \<and> \<not> truthy (data r'))) \<and>
   (checkNodePoints pw c nw = Inl x \<longleftrightarrow>
      x = TypeError \<and>
      (\<exists>r'. fst (connection_makeRequest pw c m u nw) = Some r' \<and> truthy (data r') \<and>
            \<not> stringifies (get_prop_opt (get_prop_opt (data r') ''data'') ''nodePoints''))) \<and>
   (LayerEdgeConnection (lib e) (wproxy w) (privateKey w) (wrefCode w) = Inr c \<and>
      CheckNodePoints \<in> set (fst (processWallet_try e w)) \<and>
      checkNodePoints (Math_pow e) c (net e CheckNodePoints) = Inr p \<longrightarrow>
        processWallet e w st = (w\<lparr> point := p \<rparr>, st\<lparr> success := success st + 1 \<rparr>, Completed)) \<and>
   (LayerEdgeConnection (lib e) (wproxy w) (privateKey w) (wrefCode w) = Inr c \<and>
      CheckNodePoints \<in> set (fst (processWallet_try e w)) \<and>
      checkNodePoints (Math_pow e) c (net e CheckNodePoints) = Inl x \<longrightarrow>
        processWallet e w st = (w, st\<lparr> failed := failed st + 1 \<rparr>, Caught x))"
proof -
  let ?url = "''https://referralapi.layeredge.io/api/referral/wallet-details/'' @ wallet_address c"
  let ?pts = "\<lambda>r. get_prop_opt (get_prop_opt (data r) ''data'') ''nodePoints''"
  have tr: "fst (connection_makeRequest pw c ''get'' ?url nw) = fst (connection_makeRequest pw c m u nw)"
    by (rule arg_cong[where f = fst]) (rule connection_makeRequest_indep)
  have val: "checkNodePoints pw c nw =
      (case fst (connection_makeRequest pw c m u nw) of
         None \<Rightarrow> Inr JNull
       | Some r \<Rightarrow> if truthy (data r)
           then (if stringifies (?pts r) then Inr (js_or (?pts r) (JNum 0)) else Inl TypeError)
           else Inr JNull)"
  proof -
    have st: "\<not> stringifies v \<Longrightarrow> truthy v" for v by (cases v) simp_all
    have lg: "bind_exn (logger_log (js_or v (JNum 0)) JNull) (\<lambda>_. Inr (js_or v (JNum 0))) =
          (if stringifies v then Inr (js_or v (JNum 0)) else Inl TypeError)" for v
      using st[of v] by (auto simp add: logger_log_def chalk_def bind_exn_def js_or_def)
    have ret: "bind_exn (Inr x) f = f x" for x :: jsval and f :: "jsval \<Rightarrow> exn + jsval"
      by (simp add: bind_exn_def)
    show ?thesis
      unfolding checkNodePoints_def Let_def tr
      by (simp add: get_prop_truthy_opt ret lg split: option.splits)
  qed
  have nn: "js_or x (JNum 0) \<noteq> JNull" for x
    by (cases x) (simp_all add: js_or_def)
  have p2: "fst (connection_makeRequest pw c m u nw) = Some r \<and> truthy (data r) \<and>
      ?pts r = JUndefined \<longrightarrow> checkNodePoints pw c nw = Inr (JNum 0)"
    by (simp add: val js_or_def)
  have p3: "fst (connection_makeRequest pw c m u nw) = Some r \<and> truthy (data r) \<and>
      ?pts r = JNum n \<longrightarrow> checkNodePoints pw c nw = Inr (JNum n)"
    by (simp add: val js_or_def)
  have p4: "checkNodePoints pw c nw = Inr JNull \<longleftrightarrow>
      fst (connection_makeRequest pw c m u nw) = None \<or>
      (\<exists>r'. fst (connection_makeRequest pw c m u nw) = Some r' \<and> \<not> truthy (data r'))"
    by (simp add: val nn split: option.splits)
  have p5: "checkNodePoints pw c nw = Inl x \<longleftrightarrow>
      x = TypeError \<and>
      (\<exists>r'. fst (connection_makeRequest pw c m u nw) = Some r' \<and> truthy (data r') \<and>
            \<not> stringifies (?pts r'))"
    by (auto simp add: val split: option.splits if_splits)
  have p6: "LayerEdgeConnection (lib e) (wproxy w) (privateKey w) (wrefCode w) = Inr c \<and>
      CheckNodePoints \<in> set (fst (processWallet_try e w)) \<and>
      checkNodePoints (Math_pow e) c (net e CheckNodePoints) = Inr p \<longrightarrow>
        processWallet e w st = (w\<lparr> point := p \<rparr>, st\<lparr> success := success st + 1 \<rparr>, Completed)"
  proof
    assume a: "LayerEdgeConnection (lib e) (wproxy w) (privateKey w) (wrefCode w) = Inr c \<and>
      CheckNodePoints \<in> set (fst (processWallet_try e w)) \<and>
      checkNodePoints (Math_pow e) c (net e CheckNodePoints) = Inr p"
    then have ctor: "LayerEdgeConnection (lib e) (wproxy w) (privateKey w) (wrefCode w) = Inr c"
      and q: "checkNodePoints (Math_pow e) c (net e CheckNodePoints) = Inr p"
      by simp_all
    have "snd (processWallet_try e w) = Next p"
      using a
      by (auto simp add: try_trace[OF ctor] try_result[OF ctor] from_attestation_trace
          from_attestation_result q split: sum.splits if_splits)
    then show "processWallet e w st = (w\<lparr> point := p \<rparr>, st\<lparr> success := success st + 1 \<rparr>, Completed)"
      by (simp add: processWallet_def)
  qed
  have p7: "LayerEdgeConnection (lib e) (wproxy w) (privateKey w) (wrefCode w) = Inr c \<and>
      CheckNodePoints \<in> set (fst (processWallet_try e w)) \<and>
      checkNodePoints (Math_pow e) c (net e CheckNodePoints) = Inl x \<longrightarrow>
        processWallet e w st = (w, st\<lparr> failed := failed st + 1 \<rparr>, Caught x)"
  proof
    assume a: "LayerEdgeConnection (lib e) (wproxy w) (privateKey w) (wrefCode w) = Inr c \<and>
      CheckNodePoints \<in> set (fst (processWallet_try e w)) \<and>
      checkNodePoints (Math_pow e) c (net e CheckNodePoints) = Inl x"
    then have ctor: "LayerEdgeConnection (lib e) (wproxy w) (privateKey w) (wrefCode w) = Inr c"
      and q: "checkNodePoints (Math_pow e) c (net e CheckNodePoints) = Inl x"
      by simp_all
    have "snd (processWallet_try e w) = Throw x"
      using a
      by (auto simp add: try_trace[OF ctor] try_result[OF ctor] from_attestation_trace
          from_attestation_result q split: sum.splits if_splits)
    then show "processWallet e w st = (w, st\<lparr> failed := failed st + 1 \<rparr>, Caught x)"
      by (simp add: processWallet_def)
  qed
  from p2 p3 p4 p5 p6 p7 show ?thesis by blast
qed

theorem points_total_witness:
  "checkNodePoints demo_pow demo_connection (net env_newcomer CheckNodePoints) = Inr (JNum 0) \<and>
   checkNodePoints demo_pow demo_connection (net env_running CheckNodePoints) = Inr (JNum 1250) \<and>
   checkNodePoints demo_pow demo_connection (net env_offline CheckNodePoints) = Inr JNull \<and>
   checkNodePoints demo_pow demo_connection
     (always (Reply \<lparr> status = 200,
        data = JObj [(''data'', JObj [(''nodePoints'', JObj [(''toString'', JNum 1)])])] \<rparr>)) =
     Inl TypeError \<and>
   processWallet env_offline demo_wallet \<lparr> success = 0, failed = 0 \<rparr> =
     (demo_wallet\<lparr> point := JNull \<rparr>, \<lparr> success = 1, failed = 0 \<rparr>, Completed)"
proof -
  note t = points_total[where pw = demo_pow and c = demo_connection and m = "''get''" and u = "''u''"]
  have q1: "fst (connection_makeRequest demo_pow demo_connection ''get'' ''u'' (net env_newcomer CheckNodePoints)) =
      Some \<lparr> status = 200, data = JObj [(''data'', JObj [])] \<rparr>"
    by (simp add: env_newcomer_def request_eval)
  have p1: "checkNodePoints demo_pow demo_connection (net env_newcomer CheckNodePoints) = Inr (JNum 0)"
    using t[where nw = "net env_newcomer CheckNodePoints"
              and r = "\<lparr> status = 200, data = JObj [(''data'', JObj [])] \<rparr>"] q1
    by simp
  have q2: "fst (connection_makeRequest demo_pow demo_connection ''get'' ''u'' (net env_running CheckNodePoints)) =
      Some \<lparr> status = 200, data = JObj [(''data'', JObj [(''nodePoints'', JNum 1250)])] \<rparr>"
    by (simp add: env_running_def request_eval)
  have p2: "checkNodePoints demo_pow demo_connection (net env_running CheckNodePoints) = Inr (JNum 1250)"
    using t[where nw = "net env_running CheckNodePoints" and n = 1250
              and r = "\<lparr> status = 200, data = JObj [(''data'', JObj [(''nodePoints'', JNum 1250)])] \<rparr>"] q2
    by simp
  have q3: "fst (connection_makeRequest demo_pow demo_connection ''get'' ''u'' (net env_offline CheckNodePoints)) = None"
    by (simp add: env_offline_def request_eval)
  have p3: "checkNodePoints demo_pow demo_connection (net env_offline CheckNodePoints) = Inr JNull"
    using t[where nw = "net env_offline CheckNodePoints"] q3 by simp
  have s4: "LayerEdgeConnection (lib env_offline) (wproxy demo_wallet) (privateKey demo_wallet)
              (wrefCode demo_wallet) = Inr demo_connection"
    by (simp add: env_offline_def demo_wallet_session)
  have m4: "CheckNodePoints \<in> set (fst (processWallet_try env_offline demo_wallet))"
    by (simp add: try_offline)
  have pw4: "Math_pow env_offline = demo_pow" by (simp add: env_offline_def)
  have p4: "processWallet env_offline demo_wallet \<lparr> success = 0, failed = 0 \<rparr> =
     (demo_wallet\<lparr> point := JNull \<rparr>, \<lparr> success = 1, failed = 0 \<rparr>, Completed)"
    using t[where e = env_offline and w = demo_wallet and st = "\<lparr> success = 0, failed = 0 \<rparr>"
              and p = JNull] s4 m4 p3 pw4
    by simp
  let ?hostile = "\<lparr> status = 200,
        data = JObj [(''data'', JObj [(''nodePoints'', JObj [(''toString'', JNum 1)])])] \<rparr>"
  have q5: "fst (connection_makeRequest demo_pow demo_connection ''get'' ''u'' (always (Reply ?hostile))) =
      Some ?hostile"
    by (simp add: request_eval)
  have p5: "checkNodePoints demo_pow demo_connection (always (Reply ?hostile)) = Inl TypeError"
    using t[where nw = "always (Reply ?hostile)" and x = TypeError] q5 by simp
  from p1 p2 p3 p4 p5 show ?thesis by simp
qed

text \<open>
  C9 as stated has \<^verbatim>\<open>null\<close> returned only when the transport yielded no
  response. A response with status 200 and an empty body is a response, and the
  result is \<^verbatim>\<open>null\<close>.
\<close>

theorem points_null_with_response_counterexample:
  "LayerEdgeConnection demo_lib None ''key'' ''ref'' = Inr demo_connection \<and>
   fst (connection_makeRequest demo_pow demo_connection ''get''
          ''https://referralapi.layeredge.io/api/referral/wallet-details/0xkey''
          (always (Reply \<lparr> status = 200, data = JStr [] \<rparr>))) =
     Some \<lparr> status = 200, data = JStr [] \<rparr> \<and>
   checkNodePoints demo_pow demo_connection (always (Reply \<lparr> status = 200, data = JStr [] \<rparr>)) = Inr JNull"
proof -
  have a: "fst (connection_makeRequest demo_pow demo_connection ''get''
          ''https://referralapi.layeredge.io/api/referral/wallet-details/0xkey''
          (always (Reply \<lparr> status = 200, data = JStr [] \<rparr>))) =
     Some \<lparr> status = 200, data = JStr [] \<rparr>"
    by (simp add: request_eval)
  have b: "checkNodePoints demo_pow demo_connection (always (Reply \<lparr> status = 200, data = JStr [] \<rparr>)) = Inr JNull"
    by (simp add: checkNodePoints_def request_eval)
  from a b demo_connection_built show ?thesis by simp
qed

subsection \<open>C10: the retry budget of a session\<close>

text \<open>
  C10. A session is built with a retry count of 2 and hands it to the request
  handler on every call, so a request made through a session has at most two
  attempts: against a network that never replies it makes the attempts 0 and 1,
  where the handler with its own default budget makes the attempts 0, 1 and 2.
\<close>

theorem session_two_attempts:
  "LayerEdgeConnection lb prx key code = Inr c \<longrightarrow>
     retryCount c = 2 \<and>
     connection_makeRequest pw c m u nw =
       makeRequest pw ((axiosConfig c)\<lparr> method := m, url := u \<rparr>) (Some 2) None nw \<and>
     length (attempts (snd (connection_makeRequest pw c m u nw))) \<le> 2 \<and>
     attempts (snd (connection_makeRequest pw c m u (always NetworkError))) = [0, 1] \<and>
     attempts (snd (makeRequest pw ((axiosConfig c)\<lparr> method := m, url := u \<rparr>) None None
                      (always NetworkError))) = [0, 1, 2]"
proof
  assume a: "LayerEdgeConnection lb prx key code = Inr c"
  let ?cfg = "(axiosConfig c)\<lparr> method := m, url := u \<rparr>"
  have rc: "retryCount c = 2" using a by (rule session_retryCount)
  have eq: "connection_makeRequest pw c m u nw = makeRequest pw ?cfg (Some 2) None nw" for nw
    by (simp add: connection_makeRequest_def rc)
  have le: "length (attempts (snd (connection_makeRequest pw c m u nw))) \<le> 2"
    using loop_attempts_le[where pw = pw and cfg = ?cfg and nw = nw and r = 2 and b = "Fin 2000" and i = 0]
    by (simp add: eq makeRequest_def)
  have ne: "axios ?cfg (always NetworkError i) = Rejected None" for i
    by (simp add: axios_def always_def)
  have two: "attempts (snd (connection_makeRequest pw c m u (always NetworkError))) = [0, 1]"
    by (simp add: eq makeRequest_def makeRequest_loop.simps[of _ _ _ 2] ne delay_two)
  have three: "attempts (snd (makeRequest pw ?cfg None None (always NetworkError))) = [0, 1, 2]"
    by (simp add: makeRequest_def makeRequest_loop.simps[of _ _ _ 3] ne delay_two)
  show "retryCount c = 2 \<and>
     connection_makeRequest pw c m u nw = makeRequest pw ?cfg (Some 2) None nw \<and>
     length (attempts (snd (connection_makeRequest pw c m u nw))) \<le> 2 \<and>
     attempts (snd (connection_makeRequest pw c m u (always NetworkError))) = [0, 1] \<and>
     attempts (snd (makeRequest pw ?cfg None None (always NetworkError))) = [0, 1, 2]"
    using rc eq le two three by simp
qed

theorem session_two_attempts_witness:
  "retryCount demo_connection = 2 \<and>
   attempts (snd (connection_makeRequest demo_pow demo_connection ''get'' ''u''
       (always (Reply \<lparr> status = 500, data = JNull \<rparr>)))) = [0, 1]"
proof -
  have tr: "attempts (snd (connection_makeRequest demo_pow demo_connection ''get'' ''u''
       (always (Reply \<lparr> status = 500, data = JNull \<rparr>)))) = [0, 1]"
    by (simp add: connection_makeRequest_def demo_connection_def makeRequest_def
        makeRequest_loop.simps axios_def always_def delay_def backoff_timer_def)
  from session_two_attempts[where lb = demo_lib and prx = None and key = "''key''" and code = "''ref''"
      and c = demo_connection]
    demo_connection_built
  have "retryCount demo_connection = 2" by simp
  with tr show ?thesis by simp
qed

end
